theory Spec2Isabelle
  imports Complex_Main "HOL-Library.Multiset" "HOL-Library.Monad_Syntax"
begin

section \<open>Go values shared by the packages\<close>

text \<open>
  Go's \<^verbatim>\<open>error\<close> interface as a datatype.  \<open>Errorf msg\<close> is
  \<^verbatim>\<open>fmt.Errorf(msg)\<close> with the arguments already formatted into the message;
  \<open>Wrapf prefix err\<close> is \<^verbatim>\<open>fmt.Errorf(prefix + "%w", err)\<close>: a new error value
  that keeps \<open>err\<close> reachable by unwrapping.  The other constructors are the failures
  the external collaborators report (section 7 of the specification).
\<close>

datatype error =
    Malformed
  | BadSignature
  | Expired
  | NotYetValid
  | SerializationError
  | RedisNil
  | BackendUnavailable
  | ReplyError string
  | Errorf string
  | Wrapf string error

text \<open>
  \<^verbatim>\<open>time.Time\<close> and \<^verbatim>\<open>time.Duration\<close>: integer ticks (nanoseconds) on one
  time line.  \<^verbatim>\<open>t.Add(d)\<close> is \<open>t + d\<close>, \<^verbatim>\<open>t.Before(u)\<close> is \<open>t < u\<close> and
  \<^verbatim>\<open>t.Sub(u)\<close> is \<open>t - u\<close>.
\<close>

type_synonym instant = int
type_synonym duration = int

subsection \<open>Strings\<close>

text \<open>\<^verbatim>\<open>strings.Split(s, string(d))\<close> for a one-character separator.\<close>

fun split_on :: "char \<Rightarrow> string \<Rightarrow> string list" where
  "split_on d [] = [[]]"
| "split_on d (c # cs) =
     (if c = d then [] # split_on d cs
      else (case split_on d cs of [] \<Rightarrow> [[c]] | s # ss \<Rightarrow> (c # s) # ss))"

text \<open>The verb \<^verbatim>\<open>%d\<close> of \<^verbatim>\<open>fmt.Sprintf\<close>: decimal digits, a minus sign first.\<close>

definition digit_char :: "nat \<Rightarrow> char" where
  "digit_char n = ''0123456789'' ! n"

fun digits :: "nat \<Rightarrow> string" where
  "digits n = (if n < 10 then [digit_char n] else digits (n div 10) @ [digit_char (n mod 10)])"

definition itoa :: "int \<Rightarrow> string" where
  "itoa i = (if i < 0 then CHR ''-'' # digits (nat (- i)) else digits (nat i))"

text \<open>Reading a decimal integer back (\<^verbatim>\<open>strconv.ParseInt(s, 10, 64)\<close> without its range check).\<close>

definition digit_val :: "char \<Rightarrow> nat option" where
  "digit_val c = (let k = (of_char c :: nat) in if 48 \<le> k \<and> k \<le> 57 then Some (k - 48) else None)"

fun parse_digits :: "string \<Rightarrow> nat \<Rightarrow> nat option" where
  "parse_digits [] acc = Some acc"
| "parse_digits (c # cs) acc =
     (case digit_val c of None \<Rightarrow> None | Some d \<Rightarrow> parse_digits cs (10 * acc + d))"

definition atoi :: "string \<Rightarrow> int option" where
  "atoi s =
     (case s of
        [] \<Rightarrow> None
      | c # cs \<Rightarrow>
          if c = CHR ''-'' then (if cs = [] then None else map_option (\<lambda>n. - int n) (parse_digits cs 0))
          else map_option int (parse_digits s 0))"

text \<open>
  \<^verbatim>\<open>joinStrings\<close>, the helper at the end of the user service's main.go: the first
  string, then separator and string for each further index.
\<close>

fun joinStrings :: "string list \<Rightarrow> string \<Rightarrow> string" where
  "joinStrings [] separator = []"
| "joinStrings (s # ss) separator = foldl (\<lambda>result x. result @ separator @ x) s ss"

section \<open>shared/utils/jwt.go\<close>

subsection \<open>Claims and manager\<close>

text \<open>
  \<^verbatim>\<open>jwt.RegisteredClaims\<close> holds its dates as pointers (\<^verbatim>\<open>*NumericDate\<close>), so a
  date can be absent; \<^verbatim>\<open>JWTClaims\<close> embeds it.
\<close>

record RegisteredClaims =
  Issuer :: string
  Subject :: string
  ExpiresAt :: "instant option"
  NotBefore :: "instant option"
  IssuedAt :: "instant option"

record JWTClaims = RegisteredClaims +
  UserID :: string
  Username :: string
  Email :: string
  Role :: string

record JWTManager =
  secretKey :: string
  issuer :: string

subsection \<open>The token library\<close>

text \<open>
  The signing method named by a token's header; \<^verbatim>\<open>jwt.SigningMethodHS256\<close> is one of
  the \<^verbatim>\<open>*jwt.SigningMethodHMAC\<close> values.
\<close>

datatype SigningMethod = SigningMethodHMAC string | SigningMethodOther string

definition SigningMethodHS256 :: SigningMethod where
  "SigningMethodHS256 = SigningMethodHMAC ''HS256''"

fun Alg :: "SigningMethod \<Rightarrow> string" where
  "Alg (SigningMethodHMAC a) = a"
| "Alg (SigningMethodOther a) = a"

record Token =
  Method :: SigningMethod
  Claims :: JWTClaims
  Valid :: bool

text \<open>
  The primitives of github.com/golang-jwt/jwt/v4, a dependency outside this repository:
  they are parameters of the model.  \<open>encode_header\<close> and \<open>encode_claims\<close> give the URL-safe
  base64 segment of the JSON header and payload (serialization of the claims may fail),
  \<open>decode_header\<close> and \<open>decode_claims\<close> read a segment back, \<open>mac\<close> is the encoded
  keyed MAC of a signing input under a method and a key, and \<open>NewNumericDate\<close> is the
  library's conversion of a clock reading to a claim date.
\<close>

record jwt_lib =
  NewNumericDate :: "instant \<Rightarrow> instant"
  encode_header :: "SigningMethod \<Rightarrow> string"
  decode_header :: "string \<Rightarrow> SigningMethod option"
  encode_claims :: "JWTClaims \<Rightarrow> string option"
  decode_claims :: "string \<Rightarrow> JWTClaims option"
  mac :: "SigningMethod \<Rightarrow> string \<Rightarrow> string \<Rightarrow> string"

text \<open>
  Modelled from the spec: \<^verbatim>\<open>jwt.NewWithClaims(method, claims).SignedString(key)\<close> of
  github.com/golang-jwt/jwt/v4 (a dependency outside this repository).  Section 6: a token is three dot-joined
  segments, encoded header, encoded claims payload, encoded signature, the signature
  being the keyed MAC over header + "." + payload; section 4.1: issuing never fails
  except on a serialization error of the attributes.
\<close>

definition SignedString :: "jwt_lib \<Rightarrow> SigningMethod \<Rightarrow> JWTClaims \<Rightarrow> string \<Rightarrow> error + string" where
  "SignedString lib m claims key =
     (case encode_claims lib claims of
        None \<Rightarrow> Inl SerializationError
      | Some payload \<Rightarrow>
          (let signingInput = encode_header lib m @ ''.'' @ payload
           in Inr (signingInput @ ''.'' @ mac lib m key signingInput)))"

text \<open>
  Modelled from the spec: \<^verbatim>\<open>jwt.ParseWithClaims(tokenString, &JWTClaims{}, keyFunc)\<close>
  of the same library, read at the clock value \<open>now\<close>.  Section 4.1: validation fails
  with Malformed (wrong segment count or undecodable), BadSignature (MAC mismatch),
  Expired (now > expires-at) or NotYetValid (now < not-before), in the order decode,
  verify signature, check time bounds.  The key comes from the caller's \<open>keyFunc\<close>,
  applied to the decoded method; its error ends the parse.  A date the claims do not
  carry is not checked.
\<close>

definition is_expired :: "instant \<Rightarrow> JWTClaims \<Rightarrow> bool" where
  "is_expired now claims = (case ExpiresAt claims of None \<Rightarrow> False | Some e \<Rightarrow> now > e)"

definition is_not_yet_valid :: "instant \<Rightarrow> JWTClaims \<Rightarrow> bool" where
  "is_not_yet_valid now claims = (case NotBefore claims of None \<Rightarrow> False | Some n \<Rightarrow> now < n)"

definition ParseWithClaims ::
  "jwt_lib \<Rightarrow> (SigningMethod \<Rightarrow> error + string) \<Rightarrow> instant \<Rightarrow> string \<Rightarrow> error + Token" where
  "ParseWithClaims lib keyFunc now tokenString =
     (case split_on CHR ''.'' tokenString of
        [h, p, sg] \<Rightarrow>
          (case decode_header lib h of
             None \<Rightarrow> Inl Malformed
           | Some m \<Rightarrow>
               (case decode_claims lib p of
                  None \<Rightarrow> Inl Malformed
                | Some claims \<Rightarrow>
                    (case keyFunc m of
                       Inl err \<Rightarrow> Inl err
                     | Inr key \<Rightarrow>
                         if mac lib m key (h @ ''.'' @ p) \<noteq> sg then Inl BadSignature
                         else if is_expired now claims then Inl Expired
                         else if is_not_yet_valid now claims then Inl NotYetValid
                         else Inr \<lparr>Method = m, Claims = claims, Valid = True\<rparr>)))
      | _ \<Rightarrow> Inl Malformed)"

subsection \<open>JWTManager\<close>

text \<open>
  \<^verbatim>\<open>GenerateToken\<close> reads the clock three times, in the order of the struct literal
  (ExpiresAt, IssuedAt, NotBefore); \<open>clk\<close> holds the three readings in that order.
  \<open>GenerateToken_claims\<close> is that struct literal.
\<close>

definition GenerateToken_claims ::
  "jwt_lib \<Rightarrow> JWTManager \<Rightarrow> instant \<times> instant \<times> instant \<Rightarrow>
     string \<Rightarrow> string \<Rightarrow> string \<Rightarrow> string \<Rightarrow> duration \<Rightarrow> JWTClaims" where
  "GenerateToken_claims lib j clk userID username email role expiration =
     (case clk of (t1, t2, t3) \<Rightarrow>
        \<lparr>Issuer = issuer j, Subject = userID,
         ExpiresAt = Some (NewNumericDate lib (t1 + expiration)),
         NotBefore = Some (NewNumericDate lib t3),
         IssuedAt = Some (NewNumericDate lib t2),
         UserID = userID, Username = username, Email = email, Role = role\<rparr>)"

definition GenerateToken ::
  "jwt_lib \<Rightarrow> JWTManager \<Rightarrow> instant \<times> instant \<times> instant \<Rightarrow>
     string \<Rightarrow> string \<Rightarrow> string \<Rightarrow> string \<Rightarrow> duration \<Rightarrow> error + string" where
  "GenerateToken lib j clk userID username email role expiration =
     (let claims = GenerateToken_claims lib j clk userID username email role expiration
      in (case SignedString lib SigningMethodHS256 claims (secretKey j) of
            Inl err \<Rightarrow> Inl (Wrapf ''failed to sign token: '' err)
          | Inr tokenString \<Rightarrow> Inr tokenString))"

text \<open>The key function \<^verbatim>\<open>ValidateToken\<close> hands to the parser.\<close>

definition keyFunc :: "JWTManager \<Rightarrow> SigningMethod \<Rightarrow> error + string" where
  "keyFunc j m =
     (case m of
        SigningMethodHMAC _ \<Rightarrow> Inr (secretKey j)
      | SigningMethodOther a \<Rightarrow> Inl (Errorf (''unexpected signing method: '' @ a)))"

text \<open>
  The type assertion \<^verbatim>\<open>token.Claims.(*JWTClaims)\<close> cannot fail here: the parser was
  given a \<^verbatim>\<open>*JWTClaims\<close>, which is the type of \<open>Claims\<close> in the model.
\<close>

definition ValidateToken :: "jwt_lib \<Rightarrow> JWTManager \<Rightarrow> instant \<Rightarrow> string \<Rightarrow> error + JWTClaims" where
  "ValidateToken lib j now tokenString =
     (case ParseWithClaims lib (keyFunc j) now tokenString of
        Inl err \<Rightarrow> Inl (Wrapf ''failed to parse token: '' err)
      | Inr token \<Rightarrow>
          if \<not> Valid token then Inl (Errorf ''token is invalid'')
          else Inr (Claims token))"

text \<open>
  \<^verbatim>\<open>RefreshToken\<close>: the validation reads the clock at \<open>now\<close>, the re-issue reads it
  three more times (\<open>clk\<close>).
\<close>

definition RefreshToken ::
  "jwt_lib \<Rightarrow> JWTManager \<Rightarrow> instant \<Rightarrow> instant \<times> instant \<times> instant \<Rightarrow>
     string \<Rightarrow> duration \<Rightarrow> error + string" where
  "RefreshToken lib j now clk tokenString newExpiration =
     (case ValidateToken lib j now tokenString of
        Inl err \<Rightarrow> Inl (Wrapf ''invalid token for refresh: '' err)
      | Inr claims \<Rightarrow>
          GenerateToken lib j clk (UserID claims) (Username claims) (Email claims) (Role claims)
            newExpiration)"

definition ExtractUserID :: "jwt_lib \<Rightarrow> JWTManager \<Rightarrow> instant \<Rightarrow> string \<Rightarrow> error + string" where
  "ExtractUserID lib j now tokenString =
     (case ValidateToken lib j now tokenString of
        Inl err \<Rightarrow> Inl err
      | Inr claims \<Rightarrow> Inr (UserID claims))"

text \<open>
  \<^verbatim>\<open>IsTokenExpired\<close> and \<^verbatim>\<open>GetTokenRemainingTime\<close> read the clock twice: inside the
  validation (\<open>tv\<close>) and, later, for the comparison with the expiry (\<open>now\<close>).  Both
  dereference \<^verbatim>\<open>claims.ExpiresAt\<close>; on claims without an expiry that is a nil-pointer
  panic, the result \<open>None\<close>.
\<close>

definition IsTokenExpired :: "jwt_lib \<Rightarrow> JWTManager \<Rightarrow> instant \<Rightarrow> instant \<Rightarrow> string \<Rightarrow> bool option" where
  "IsTokenExpired lib j tv now tokenString =
     (case ValidateToken lib j tv tokenString of
        Inl err \<Rightarrow> Some True
      | Inr claims \<Rightarrow>
          (case ExpiresAt claims of
             None \<Rightarrow> None
           | Some e \<Rightarrow> Some (e < now)))"

definition GetTokenRemainingTime ::
  "jwt_lib \<Rightarrow> JWTManager \<Rightarrow> instant \<Rightarrow> instant \<Rightarrow> string \<Rightarrow> (error + duration) option" where
  "GetTokenRemainingTime lib j tv now tokenString =
     (case ValidateToken lib j tv tokenString of
        Inl err \<Rightarrow> Some (Inl err)
      | Inr claims \<Rightarrow>
          (case ExpiresAt claims of
             None \<Rightarrow> None
           | Some e \<Rightarrow>
               (let remaining = e - now
                in if remaining < 0 then Some (Inl (Errorf ''token has expired''))
                   else Some (Inr remaining))))"

text \<open>
  What the primitives of the real library give on the claims it can serialize: the
  payload decodes back to the claims and the header to the method, and no segment
  (header, payload, signature) contains the delimiter.  \<open>lossless_on\<close> says so for one
  method, key and claim set.
\<close>

definition lossless_on :: "jwt_lib \<Rightarrow> SigningMethod \<Rightarrow> string \<Rightarrow> JWTClaims \<Rightarrow> bool" where
  "lossless_on lib m key claims =
     (case encode_claims lib claims of
        None \<Rightarrow> False
      | Some payload \<Rightarrow>
          (let header = encode_header lib m
           in CHR ''.'' \<notin> set header \<and> CHR ''.'' \<notin> set payload \<and>
              CHR ''.'' \<notin> set (mac lib m key (header @ ''.'' @ payload)) \<and>
              decode_header lib header = Some m \<and> decode_claims lib payload = Some claims))"

subsection \<open>The wire format\<close>

text \<open>
  Modelled from the spec: the primitives of github.com/golang-jwt/jwt/v4 (a dependency
  outside this repository) as section 6 gives the token wire format: three dot-joined,
  URL-safe base64 segments, encoded header, encoded claims payload, encoded signature;
  the header identifies the signing algorithm; the signature is the keyed MAC over
  header + "." + payload.
\<close>

text \<open>
  URL-safe base64 without padding (\<^verbatim>\<open>EncodeSegment\<close>, \<^verbatim>\<open>DecodeSegment\<close>): three bytes
  become four characters of the alphabet, a last group of one or two bytes becomes two
  or three.
\<close>

definition base64url_alphabet :: string where
  "base64url_alphabet = ''ABCDEFGHIJKLMNOPQRSTUVWXYZabcdefghijklmnopqrstuvwxyz0123456789-_''"

fun index_of :: "char \<Rightarrow> string \<Rightarrow> nat option" where
  "index_of c [] = None"
| "index_of c (x # xs) = (if x = c then Some 0 else map_option Suc (index_of c xs))"

definition enc6 :: "nat \<Rightarrow> char" where
  "enc6 n = base64url_alphabet ! n"

definition dec6 :: "char \<Rightarrow> nat option" where
  "dec6 c = index_of c base64url_alphabet"

fun EncodeSegment :: "string \<Rightarrow> string" where
  "EncodeSegment (a # b # c # rest) =
     (let x = (of_char a :: nat); y = (of_char b :: nat); z = (of_char c :: nat)
      in enc6 (x div 4) # enc6 ((x mod 4) * 16 + y div 16) #
         enc6 ((y mod 16) * 4 + z div 64) # enc6 (z mod 64) # EncodeSegment rest)"
| "EncodeSegment [a, b] =
     (let x = (of_char a :: nat); y = (of_char b :: nat)
      in [enc6 (x div 4), enc6 ((x mod 4) * 16 + y div 16), enc6 ((y mod 16) * 4)])"
| "EncodeSegment [a] =
     (let x = (of_char a :: nat) in [enc6 (x div 4), enc6 ((x mod 4) * 16)])"
| "EncodeSegment [] = []"

fun DecodeSegment :: "string \<Rightarrow> string option" where
  "DecodeSegment (w # x # y # z # rest) =
     (case dec6 w of None \<Rightarrow> None | Some p \<Rightarrow>
      case dec6 x of None \<Rightarrow> None | Some q \<Rightarrow>
      case dec6 y of None \<Rightarrow> None | Some r \<Rightarrow>
      case dec6 z of None \<Rightarrow> None | Some s \<Rightarrow>
      case DecodeSegment rest of None \<Rightarrow> None | Some cs \<Rightarrow>
        Some (char_of (p * 4 + q div 16) # char_of ((q mod 16) * 16 + r div 4) #
              char_of ((r mod 4) * 64 + s) # cs))"
| "DecodeSegment [w, x, y] =
     (case dec6 w of None \<Rightarrow> None | Some p \<Rightarrow>
      case dec6 x of None \<Rightarrow> None | Some q \<Rightarrow>
      case dec6 y of None \<Rightarrow> None | Some r \<Rightarrow>
        Some [char_of (p * 4 + q div 16), char_of ((q mod 16) * 16 + r div 4)])"
| "DecodeSegment [w, x] =
     (case dec6 w of None \<Rightarrow> None | Some p \<Rightarrow>
      case dec6 x of None \<Rightarrow> None | Some q \<Rightarrow>
        Some [char_of (p * 4 + q div 16)])"
| "DecodeSegment [w] = None"
| "DecodeSegment [] = Some []"


text \<open>
  JSON text: a string between double quotes, with a backslash before each double quote
  and backslash in it; a key is a quoted name and a colon; a date is its integer, or
  \<open>null\<close> when the claims carry none.  The readers return what they read and the rest
  of the input.
\<close>

definition dquote :: char where "dquote = CHR 0x22"
definition backslash :: char where "backslash = CHR 0x5C"

fun json_escape :: "string \<Rightarrow> string" where
  "json_escape [] = []"
| "json_escape (c # cs) =
     (if c = dquote \<or> c = backslash then backslash # c # json_escape cs else c # json_escape cs)"

definition json_string :: "string \<Rightarrow> string" where
  "json_string s = dquote # json_escape s @ [dquote]"

fun read_string_body :: "string \<Rightarrow> (string \<times> string) option" where
  "read_string_body [] = None"
| "read_string_body (c # cs) =
     (if c = dquote then Some ([], cs)
      else if c = backslash then
        (case cs of
           [] \<Rightarrow> None
         | d # ds \<Rightarrow> (case read_string_body ds of None \<Rightarrow> None | Some (s, r) \<Rightarrow> Some (d # s, r)))
      else (case read_string_body cs of None \<Rightarrow> None | Some (s, r) \<Rightarrow> Some (c # s, r)))"

definition read_string :: "string \<Rightarrow> (string \<times> string) option" where
  "read_string s = (case s of [] \<Rightarrow> None | c # cs \<Rightarrow> if c = dquote then read_string_body cs else None)"

fun expect :: "string \<Rightarrow> string \<Rightarrow> string option" where
  "expect [] s = Some s"
| "expect (p # ps) [] = None"
| "expect (p # ps) (c # cs) = (if p = c then expect ps cs else None)"

definition json_key :: "string \<Rightarrow> string" where
  "json_key k = dquote # k @ [dquote, CHR '':'']"

definition is_digit :: "char \<Rightarrow> bool" where
  "is_digit c = (digit_val c \<noteq> None)"

definition json_date :: "instant option \<Rightarrow> string" where
  "json_date d = (case d of None \<Rightarrow> ''null'' | Some t \<Rightarrow> itoa t)"

definition read_number :: "string \<Rightarrow> (nat \<times> string) option" where
  "read_number s =
     (if takeWhile is_digit s = [] then None
      else map_option (\<lambda>n. (n, dropWhile is_digit s)) (parse_digits (takeWhile is_digit s) 0))"

definition read_date :: "string \<Rightarrow> (instant option \<times> string) option" where
  "read_date s =
     (case s of
        [] \<Rightarrow> None
      | c # cs \<Rightarrow>
          if c = CHR ''n'' then map_option (\<lambda>r. (None, r)) (expect ''null'' s)
          else if c = CHR ''-'' then map_option (\<lambda>(n, r). (Some (- int n), r)) (read_number cs)
          else map_option (\<lambda>(n, r). (Some (int n), r)) (read_number s))"


text \<open>
  The payload is the JSON object of the claims, under the struct tags of
  \<^verbatim>\<open>JWTClaims\<close> and the registered claim names; the header is the JSON object naming
  the algorithm and the type.
\<close>

definition marshal_claims :: "JWTClaims \<Rightarrow> string" where
  "marshal_claims c =
     ''{'' @ json_key ''user_id'' @ json_string (UserID c) @
     '','' @ json_key ''username'' @ json_string (Username c) @
     '','' @ json_key ''email'' @ json_string (Email c) @
     '','' @ json_key ''role'' @ json_string (Role c) @
     '','' @ json_key ''iss'' @ json_string (Issuer c) @
     '','' @ json_key ''sub'' @ json_string (Subject c) @
     '','' @ json_key ''exp'' @ json_date (ExpiresAt c) @
     '','' @ json_key ''nbf'' @ json_date (NotBefore c) @
     '','' @ json_key ''iat'' @ json_date (IssuedAt c) @ ''}''"

definition unmarshal_claims :: "string \<Rightarrow> JWTClaims option" where
  "unmarshal_claims s = do {
     r \<leftarrow> expect (''{'' @ json_key ''user_id'') s;
     (userID, r) \<leftarrow> read_string r;
     r \<leftarrow> expect ('','' @ json_key ''username'') r;
     (username, r) \<leftarrow> read_string r;
     r \<leftarrow> expect ('','' @ json_key ''email'') r;
     (email, r) \<leftarrow> read_string r;
     r \<leftarrow> expect ('','' @ json_key ''role'') r;
     (role, r) \<leftarrow> read_string r;
     r \<leftarrow> expect ('','' @ json_key ''iss'') r;
     (iss, r) \<leftarrow> read_string r;
     r \<leftarrow> expect ('','' @ json_key ''sub'') r;
     (sub, r) \<leftarrow> read_string r;
     r \<leftarrow> expect ('','' @ json_key ''exp'') r;
     (expiresAt, r) \<leftarrow> read_date r;
     r \<leftarrow> expect ('','' @ json_key ''nbf'') r;
     (notBefore, r) \<leftarrow> read_date r;
     r \<leftarrow> expect ('','' @ json_key ''iat'') r;
     (issuedAt, r) \<leftarrow> read_date r;
     r \<leftarrow> expect ''}'' r;
     if r = [] then
       Some \<lparr>Issuer = iss, Subject = sub, ExpiresAt = expiresAt, NotBefore = notBefore,
             IssuedAt = issuedAt, UserID = userID, Username = username, Email = email,
             Role = role\<rparr>
     else None }"

definition GetSigningMethod :: "string \<Rightarrow> SigningMethod" where
  "GetSigningMethod alg =
     (if alg = ''HS256'' \<or> alg = ''HS384'' \<or> alg = ''HS512'' then SigningMethodHMAC alg
      else SigningMethodOther alg)"

definition marshal_header :: "SigningMethod \<Rightarrow> string" where
  "marshal_header m =
     ''{'' @ json_key ''alg'' @ json_string (Alg m) @ '','' @ json_key ''typ'' @
     json_string ''JWT'' @ ''}''"

definition unmarshal_header :: "string \<Rightarrow> SigningMethod option" where
  "unmarshal_header s = do {
     r \<leftarrow> expect (''{'' @ json_key ''alg'') s;
     (alg, r) \<leftarrow> read_string r;
     r \<leftarrow> expect ('','' @ json_key ''typ'') r;
     (typ, r) \<leftarrow> read_string r;
     r \<leftarrow> expect ''}'' r;
     if r = [] then Some (GetSigningMethod alg) else None }"

text \<open>
  The library with these primitives.  The keyed MAC function itself, \<open>hmac\<close> (from the
  algorithm's name, the key and the signing input to the MAC's bytes), stays a
  parameter; a claim date is the clock reading it is made from (section 4.1:
  issued-at = now, expires-at = now + ttl, not-before = now).
\<close>

definition jwt_v4 :: "(string \<Rightarrow> string \<Rightarrow> string \<Rightarrow> string) \<Rightarrow> jwt_lib" where
  "jwt_v4 hmac =
     \<lparr>NewNumericDate = (\<lambda>t. t),
      encode_header = (\<lambda>m. EncodeSegment (marshal_header m)),
      decode_header = (\<lambda>s. Option.bind (DecodeSegment s) unmarshal_header),
      encode_claims = (\<lambda>c. Some (EncodeSegment (marshal_claims c))),
      decode_claims = (\<lambda>s. Option.bind (DecodeSegment s) unmarshal_claims),
      mac = (\<lambda>m key signingInput. EncodeSegment (hmac (Alg m) key signingInput))\<rparr>"


text \<open>A stand-in for the keyed MAC, for evaluating the library on concrete input.\<close>

definition toy_hmac :: "string \<Rightarrow> string \<Rightarrow> string \<Rightarrow> string" where
  "toy_hmac alg key signingInput = alg @ key @ signingInput"

subsection \<open>A test double for the token library\<close>

text \<open>
  A small concrete library for evaluating the manager on concrete tokens: the header is
  the method's name after a tag, the payload lists the nine claim fields separated by
  commas, a segment is written with \<open>%\<close> in place of each dot, and the MAC is the
  key followed by the signing input, written the same way.  It is lossless on claims
  whose strings contain neither a comma nor a percent sign.
\<close>

definition mock_segment :: "string \<Rightarrow> string" where
  "mock_segment s = map (\<lambda>c. if c = CHR ''.'' then CHR ''%'' else c) s"

definition mock_unsegment :: "string \<Rightarrow> string" where
  "mock_unsegment s = map (\<lambda>c. if c = CHR ''%'' then CHR ''.'' else c) s"

definition mock_date :: "instant option \<Rightarrow> string" where
  "mock_date d = (case d of None \<Rightarrow> [] | Some t \<Rightarrow> itoa t)"

definition mock_parse_date :: "string \<Rightarrow> instant option option" where
  "mock_parse_date s = (if s = [] then Some None else map_option Some (atoi s))"

definition mock_encode_header :: "SigningMethod \<Rightarrow> string" where
  "mock_encode_header m =
     (case m of SigningMethodHMAC a \<Rightarrow> ''hmac-'' @ mock_segment a
              | SigningMethodOther a \<Rightarrow> ''other-'' @ mock_segment a)"

definition mock_decode_header :: "string \<Rightarrow> SigningMethod option" where
  "mock_decode_header s =
     (if take 5 s = ''hmac-'' then Some (SigningMethodHMAC (mock_unsegment (drop 5 s)))
      else if take 6 s = ''other-'' then Some (SigningMethodOther (mock_unsegment (drop 6 s)))
      else None)"

definition mock_encode_claims :: "JWTClaims \<Rightarrow> string option" where
  "mock_encode_claims c =
     Some (mock_segment (joinStrings
       [UserID c, Username c, Email c, Role c, Issuer c, Subject c,
        mock_date (ExpiresAt c), mock_date (NotBefore c), mock_date (IssuedAt c)] '',''))"

definition mock_decode_claims :: "string \<Rightarrow> JWTClaims option" where
  "mock_decode_claims s =
     (case split_on CHR '','' (mock_unsegment s) of
        [u, n, e, r, i, sb, ex, nb, ia] \<Rightarrow>
          (case (mock_parse_date ex, mock_parse_date nb, mock_parse_date ia) of
             (Some x, Some y, Some z) \<Rightarrow>
               Some \<lparr>Issuer = i, Subject = sb, ExpiresAt = x, NotBefore = y, IssuedAt = z,
                     UserID = u, Username = n, Email = e, Role = r\<rparr>
           | _ \<Rightarrow> None)
      | _ \<Rightarrow> None)"

definition mock_mac :: "SigningMethod \<Rightarrow> string \<Rightarrow> string \<Rightarrow> string" where
  "mock_mac m key signingInput = mock_segment (Alg m @ '':'' @ key @ '':'' @ signingInput)"

definition mock_lib :: jwt_lib where
  "mock_lib = \<lparr>NewNumericDate = (\<lambda>t. t),
                encode_header = mock_encode_header, decode_header = mock_decode_header,
                encode_claims = mock_encode_claims, decode_claims = mock_decode_claims,
                mac = mock_mac\<rparr>"

definition mock_manager :: JWTManager where
  "mock_manager = \<lparr>secretKey = ''key'', issuer = ''auth''\<rparr>"

text \<open>
  The token this manager issues for user u1 when every clock reading is 0 and the
  lifetime is 10 ticks, and the claims it carries.
\<close>

definition sample_claims :: JWTClaims where
  "sample_claims =
     \<lparr>Issuer = ''auth'', Subject = ''u1'', ExpiresAt = Some 10, NotBefore = Some 0,
      IssuedAt = Some 0, UserID = ''u1'', Username = ''ann'', Email = ''ann@example.com'',
      Role = ''admin''\<rparr>"

definition sample_token :: string where
  "sample_token =
     ''hmac-HS256.u1,ann,ann@example%com,admin,auth,u1,10,0,0.HS256:key:hmac-HS256%u1,ann,ann@example%com,admin,auth,u1,10,0,0''"

section \<open>shared/middleware/middleware.go: the rate limiter\<close>

text \<open>
  Modelled from the spec: the limiter \<^verbatim>\<open>rate.NewLimiter\<close> returns and its
  \<^verbatim>\<open>Allow\<close> (golang.org/x/time/rate, a dependency outside this repository).
  Section 3: available tokens (a real number in [0, capacity]), last-refill instant,
  capacity, refill rate; refill is computed lazily from the elapsed time at each
  admission check.  Section 4.2: elapsed = now - lastRefill; newTokens =
  min(capacity, currentTokens + elapsed * R); if newTokens \<ge> 1, consume 1, record
  lastRefill = now and return true; else return false, keeping the refill just computed.
  Instants are nanosecond ticks, the rate is per second.
\<close>

record RateLimiterState =
  availableTokens :: real
  lastRefill :: instant
  capacity :: real
  refillRate :: real

definition seconds :: "duration \<Rightarrow> real" where
  "seconds d = real_of_int d / 1000000000"

definition NewLimiter :: "real \<Rightarrow> int \<Rightarrow> instant \<Rightarrow> RateLimiterState" where
  "NewLimiter r b created =
     \<lparr>availableTokens = real_of_int b, lastRefill = created, capacity = real_of_int b, refillRate = r\<rparr>"

definition Allow :: "RateLimiterState \<Rightarrow> instant \<Rightarrow> bool \<times> RateLimiterState" where
  "Allow rl now =
     (let elapsed = seconds (now - lastRefill rl);
          newTokens = min (capacity rl) (availableTokens rl + elapsed * refillRate rl)
      in if newTokens \<ge> 1
         then (True, rl\<lparr>availableTokens := newTokens - 1, lastRefill := now\<rparr>)
         else (False, rl\<lparr>availableTokens := newTokens, lastRefill := now\<rparr>))"

text \<open>
  The middleware of the source: \<^verbatim>\<open>RateLimiter(requestsPerSecond, burstSize)\<close> creates
  one limiter and returns the handler, which answers 429 and aborts when the limiter
  refuses and calls the next stage otherwise.
\<close>

datatype stage_result = Next | AbortWithJSON nat "(string \<times> string) list"

definition RateLimiter :: "int \<Rightarrow> int \<Rightarrow> instant \<Rightarrow> RateLimiterState" where
  "RateLimiter requestsPerSecond burstSize created =
     NewLimiter (real_of_int requestsPerSecond) burstSize created"

definition RateLimiter_handler ::
  "int \<Rightarrow> RateLimiterState \<Rightarrow> instant \<Rightarrow> stage_result \<times> RateLimiterState" where
  "RateLimiter_handler requestsPerSecond limiter now =
     (case Allow limiter now of
        (allowed, limiter') \<Rightarrow>
          if \<not> allowed
          then (AbortWithJSON 429
                  [(''error'', ''Rate limit exceeded''),
                   (''message'', ''Maximum '' @ itoa requestsPerSecond @ '' requests per second allowed'')],
                limiter')
          else (Next, limiter'))"

text \<open>Successive \<^verbatim>\<open>Allow\<close> calls on one limiter, at the given instants.\<close>

fun allows :: "RateLimiterState \<Rightarrow> instant list \<Rightarrow> bool list" where
  "allows rl [] = []"
| "allows rl (t # ts) = (case Allow rl t of (ok, rl') \<Rightarrow> ok # allows rl' ts)"

text \<open>Successive requests through the middleware, at the given instants.\<close>

fun serve :: "int \<Rightarrow> RateLimiterState \<Rightarrow> instant list \<Rightarrow> stage_result list" where
  "serve requestsPerSecond limiter [] = []"
| "serve requestsPerSecond limiter (t # ts) =
     (case RateLimiter_handler requestsPerSecond limiter t of
        (res, limiter') \<Rightarrow> res # serve requestsPerSecond limiter' ts)"

section \<open>Package database: the Redis client\<close>

subsection \<open>The backing store\<close>

text \<open>
  Modelled from the spec: the external store and the connection to it (the Redis server
  and github.com/go-redis/redis/v8, both outside this repository).
  Section 3: a cache entry is a key, a value (serialized bytes) and a remaining TTL;
  section 5: the store is reached by network calls; section 7: a lookup ends in a value,
  in Miss, or in CacheBackendUnavailable (timeout or transport failure); section 4.3: a
  failure can fall between the increment and the TTL assignment of a counter.

  An entry without expiry has the TTL \<open>None\<close>.  The commands are those the client of
  the source sends.  \<open>INCR\<close> creates a missing key with the value 1 and no expiry and
  refuses a value that is not an integer; \<open>EXPIRE\<close> assigns the TTL of an existing
  key.
\<close>

record entry =
  bytes :: string
  remainingTTL :: "duration option"

type_synonym store = "string \<Rightarrow> entry option"

datatype command = GET string | SET string string duration | INCR string | EXPIRE string duration

datatype reply = NilReply | BulkReply string | IntReply int | StatusReply string | ErrReply string

fun apply_command :: "store \<Rightarrow> command \<Rightarrow> reply \<times> store" where
  "apply_command s (GET key) =
     (case s key of None \<Rightarrow> (NilReply, s) | Some e \<Rightarrow> (BulkReply (bytes e), s))"
| "apply_command s (SET key v expiration) =
     (StatusReply ''OK'', s(key \<mapsto> \<lparr>bytes = v, remainingTTL = Some expiration\<rparr>))"
| "apply_command s (INCR key) =
     (case s key of
        None \<Rightarrow> (IntReply 1, s(key \<mapsto> \<lparr>bytes = ''1'', remainingTTL = None\<rparr>))
      | Some e \<Rightarrow>
          (case atoi (bytes e) of
             None \<Rightarrow> (ErrReply ''ERR value is not an integer or out of range'', s)
           | Some n \<Rightarrow> (IntReply (n + 1), s(key \<mapsto> e\<lparr>bytes := itoa (n + 1)\<rparr>))))"
| "apply_command s (EXPIRE key expiration) =
     (case s key of
        None \<Rightarrow> (IntReply 0, s)
      | Some e \<Rightarrow> (IntReply 1, s(key \<mapsto> e\<lparr>remainingTTL := Some expiration\<rparr>)))"

fun apply_commands :: "store \<Rightarrow> command list \<Rightarrow> reply list \<times> store" where
  "apply_commands s [] = ([], s)"
| "apply_commands s (c # cs) =
     (case apply_command s c of
        (r, s') \<Rightarrow> (case apply_commands s' cs of (rs, s'') \<Rightarrow> (r # rs, s'')))"

text \<open>
  The state of the backend: the entries, and what the connection will do on the coming
  round trips.  \<open>None\<close> is a round trip that is served; \<open>Some k\<close> is one that is lost
  after the server has applied the first \<open>k\<close> commands of the batch, so the client sees
  a transport failure.  An empty list is a healthy connection.  A batch sent through
  \<^verbatim>\<open>Pipeline()\<close> is one round trip of several commands, which the server applies one
  after the other.
\<close>

record redis =
  entries :: store
  faults :: "nat option list"

definition next_fault :: "redis \<Rightarrow> nat option" where
  "next_fault rdb = (case faults rdb of [] \<Rightarrow> None | f # fs \<Rightarrow> f)"

definition round_trip :: "redis \<Rightarrow> command list \<Rightarrow> (error + reply list) \<times> redis" where
  "round_trip rdb cmds =
     (case next_fault rdb of
        None \<Rightarrow>
          (case apply_commands (entries rdb) cmds of
             (rs, s) \<Rightarrow> (Inr rs, rdb\<lparr>entries := s, faults := tl (faults rdb)\<rparr>))
      | Some k \<Rightarrow>
          (case apply_commands (entries rdb) (take k cmds) of
             (rs, s) \<Rightarrow> (Inl BackendUnavailable, rdb\<lparr>entries := s, faults := tl (faults rdb)\<rparr>)))"

text \<open>
  The calls of the client library the source uses: \<^verbatim>\<open>Client.Get(ctx, key).Result()\<close>
  (\<^verbatim>\<open>redis.Nil\<close> for a missing key), \<^verbatim>\<open>Client.Set(ctx, key, data, expiration).Err()\<close>,
  and \<^verbatim>\<open>pipe.Exec(ctx)\<close> on a pipeline holding the queued commands, which returns the
  first failure and leaves each command's reply in its handle (\<open>IntCmd_Val\<close> reads an
  integer handle, 0 when it holds none).
\<close>

definition Client_Get :: "redis \<Rightarrow> string \<Rightarrow> (error + string) \<times> redis" where
  "Client_Get rdb key =
     (case round_trip rdb [GET key] of
        (Inl err, rdb') \<Rightarrow> (Inl err, rdb')
      | (Inr [BulkReply v], rdb') \<Rightarrow> (Inr v, rdb')
      | (Inr [ErrReply m], rdb') \<Rightarrow> (Inl (ReplyError m), rdb')
      | (Inr _, rdb') \<Rightarrow> (Inl RedisNil, rdb'))"

definition Client_Set :: "redis \<Rightarrow> string \<Rightarrow> string \<Rightarrow> duration \<Rightarrow> error option \<times> redis" where
  "Client_Set rdb key v expiration =
     (case round_trip rdb [SET key v expiration] of
        (Inl err, rdb') \<Rightarrow> (Some err, rdb')
      | (Inr [ErrReply m], rdb') \<Rightarrow> (Some (ReplyError m), rdb')
      | (Inr _, rdb') \<Rightarrow> (None, rdb'))"

fun first_error :: "reply list \<Rightarrow> error option" where
  "first_error [] = None"
| "first_error (ErrReply m # rs) = Some (ReplyError m)"
| "first_error (r # rs) = first_error rs"

definition Pipeline_Exec :: "redis \<Rightarrow> command list \<Rightarrow> (error option \<times> reply list) \<times> redis" where
  "Pipeline_Exec rdb cmds =
     (case round_trip rdb cmds of
        (Inl err, rdb') \<Rightarrow> ((Some err, []), rdb')
      | (Inr rs, rdb') \<Rightarrow> ((first_error rs, rs), rdb'))"

fun IntCmd_Val :: "reply list \<Rightarrow> nat \<Rightarrow> int" where
  "IntCmd_Val rs i = (if i < length rs then (case rs ! i of IntReply n \<Rightarrow> n | _ \<Rightarrow> 0) else 0)"

subsection \<open>Values and their JSON form\<close>

text \<open>
  A Go value of type \<^verbatim>\<open>interface{}\<close>: a string, which the type switch of
  \<^verbatim>\<open>SetWithExpiration\<close> singles out, or something else.  \<^verbatim>\<open>json.Marshal\<close> and
  \<^verbatim>\<open>json.Unmarshal\<close> (into an \<^verbatim>\<open>interface{}\<close>) are parameters.
\<close>

datatype 'a go_value = GoString string | GoOther 'a

record 'a json_lib =
  Marshal :: "'a go_value \<Rightarrow> error + string"
  Unmarshal :: "string \<Rightarrow> error + 'a go_value"

subsection \<open>RedisClient\<close>

text \<open>The methods of the source; its log lines are not part of the model.\<close>

definition SetWithExpiration ::
  "'a json_lib \<Rightarrow> redis \<Rightarrow> string \<Rightarrow> 'a go_value \<Rightarrow> duration \<Rightarrow> error option \<times> redis" where
  "SetWithExpiration js rdb key v expiration =
     (case (case v of
              GoString str \<Rightarrow> Inr str
            | GoOther _ \<Rightarrow>
                (case Marshal js v of
                   Inl err \<Rightarrow> Inl (Wrapf ''failed to marshal value: '' err)
                 | Inr jsonData \<Rightarrow> Inr jsonData)) of
        Inl err \<Rightarrow> (Some err, rdb)
      | Inr payload \<Rightarrow>
          (case Client_Set rdb key payload expiration of
             (Some err, rdb') \<Rightarrow> (Some (Wrapf ''failed to set value: '' err), rdb')
           | (None, rdb') \<Rightarrow> (None, rdb')))"

definition Get :: "redis \<Rightarrow> string \<Rightarrow> (error + string) \<times> redis" where
  "Get rdb key =
     (case Client_Get rdb key of
        (Inl err, rdb') \<Rightarrow>
          if err = RedisNil then (Inl (Errorf (''key not found: '' @ key)), rdb')
          else (Inl (Wrapf ''failed to get value: '' err), rdb')
      | (Inr v, rdb') \<Rightarrow> (Inr v, rdb'))"

definition GetAndUnmarshal ::
  "'a json_lib \<Rightarrow> redis \<Rightarrow> string \<Rightarrow> (error + 'a go_value) \<times> redis" where
  "GetAndUnmarshal js rdb key =
     (case Get rdb key of
        (Inl err, rdb') \<Rightarrow> (Inl err, rdb')
      | (Inr v, rdb') \<Rightarrow>
          (case Unmarshal js v of
             Inl err \<Rightarrow> (Inl (Wrapf ''failed to unmarshal JSON: '' err), rdb')
           | Inr dest \<Rightarrow> (Inr dest, rdb')))"

definition IncrementCounter :: "redis \<Rightarrow> string \<Rightarrow> duration \<Rightarrow> (error + int) \<times> redis" where
  "IncrementCounter rdb key expiration =
     (case Pipeline_Exec rdb [INCR key, EXPIRE key expiration] of
        ((Some err, cmds), rdb') \<Rightarrow> (Inl (Wrapf ''failed to increment counter: '' err), rdb')
      | ((None, cmds), rdb') \<Rightarrow> (Inr (IntCmd_Val cmds 0), rdb'))"

text \<open>
  \<^verbatim>\<open>CacheWithCallback\<close>.  The callback is a Go closure: it runs in a world \<open>w\<close>,
  which it may change, and returns a value or an error.  The result is the returned
  pair, the backend afterwards and the world afterwards.
\<close>

definition CacheWithCallback ::
  "'a json_lib \<Rightarrow> redis \<Rightarrow> string \<Rightarrow> duration \<Rightarrow> ('w \<Rightarrow> (error + 'a go_value) \<times> 'w) \<Rightarrow> 'w
     \<Rightarrow> (error + 'a go_value) \<times> redis \<times> 'w" where
  "CacheWithCallback js rdb key expiration callback w =
     (case GetAndUnmarshal js rdb key of
        (Inr cachedData, rdb') \<Rightarrow> (Inr cachedData, rdb', w)
      | (Inl _, rdb') \<Rightarrow>
          (case callback w of
             (Inl err, w') \<Rightarrow> (Inl err, rdb', w')
           | (Inr v, w') \<Rightarrow>
               (case SetWithExpiration js rdb' key v expiration of
                  (_, rdb'') \<Rightarrow> (Inr v, rdb'', w'))))"

text \<open>
  A callback that also counts its invocations: the world is paired with a counter,
  which every run of the callback advances by one.
\<close>

definition counted ::
  "('w \<Rightarrow> (error + 'a go_value) \<times> 'w) \<Rightarrow> 'w \<times> nat \<Rightarrow> (error + 'a go_value) \<times> ('w \<times> nat)" where
  "counted callback = (\<lambda>(w, n). case callback w of (r, w') \<Rightarrow> (r, (w', Suc n)))"

text \<open>Successive \<^verbatim>\<open>IncrementCounter\<close> calls on one key.\<close>

fun increments :: "redis \<Rightarrow> string \<Rightarrow> duration \<Rightarrow> nat \<Rightarrow> (error + int) list \<times> redis" where
  "increments rdb key expiration 0 = ([], rdb)"
| "increments rdb key expiration (Suc n) =
     (case IncrementCounter rdb key expiration of
        (r, rdb') \<Rightarrow> (case increments rdb' key expiration n of (rs, rdb'') \<Rightarrow> (r # rs, rdb'')))"

text \<open>
  A test double for the JSON library over integer payloads: an integer is written in
  decimal, a string between double quotes.
\<close>

definition mock_Marshal :: "int go_value \<Rightarrow> error + string" where
  "mock_Marshal v = (case v of GoString str \<Rightarrow> Inr (CHR 0x22 # str @ [CHR 0x22]) | GoOther n \<Rightarrow> Inr (itoa n))"

definition mock_Unmarshal :: "string \<Rightarrow> error + int go_value" where
  "mock_Unmarshal str =
     (if 2 \<le> length str \<and> hd str = CHR 0x22 \<and> last str = CHR 0x22
      then Inr (GoString (butlast (tl str)))
      else (case atoi str of None \<Rightarrow> Inl (Errorf ''invalid character'') | Some n \<Rightarrow> Inr (GoOther n)))"

definition mock_json :: "int json_lib" where
  "mock_json = \<lparr>Marshal = mock_Marshal, Unmarshal = mock_Unmarshal\<rparr>"

text \<open>
  Backends for evaluating the client: an empty store on a healthy connection, and an
  empty store whose connection serves the first round trip and loses the second before
  the server applies anything.
\<close>

definition empty_backend :: redis where
  "empty_backend = \<lparr>entries = Map.empty, faults = []\<rparr>"

definition write_failing_backend :: redis where
  "write_failing_backend = \<lparr>entries = Map.empty, faults = [None, Some 0]\<rparr>"




section \<open>The user management service: partial updates\<close>

subsection \<open>Requests and the database handle\<close>

text \<open>
  \<^verbatim>\<open>UpdateUserRequest\<close>, the struct the handler binds the request body to: three
  strings, empty when the body does not carry them, and a pointer to a boolean.  A
  positional argument of a statement is an \<^verbatim>\<open>interface{}\<close>; the service passes
  strings, booleans, a time and the integer identifier.
\<close>

record UpdateUserRequest =
  Username_upd :: string
  Email_upd :: string
  FullName_upd :: string
  IsActive_upd :: "bool option"

datatype sql_arg = SqlString string | SqlBool bool | SqlTime instant | SqlInt int

text \<open>
  The database behind \<^verbatim>\<open>*sqlx.DB\<close> is a parameter: what \<^verbatim>\<open>db.Get(&count, query, args...)\<close>
  reads for a counting query, and the rows \<^verbatim>\<open>db.Exec(query, args...)\<close> affects.
\<close>

record sqlx_DB =
  DB_Get :: "string \<Rightarrow> sql_arg list \<Rightarrow> error + int"
  DB_Exec :: "string \<Rightarrow> sql_arg list \<Rightarrow> error + int"

text \<open>
  A Go \<^verbatim>\<open>map[string]interface{}\<close> as the list of its entries, keys distinct;
  \<open>map_assign\<close> is \<^verbatim>\<open>m[k] = v\<close>.  A \<^verbatim>\<open>range\<close> over a map visits the entries in an
  order the runtime chooses: the functions that range over a map take that choice as
  the parameter \<open>range_order\<close>, a rearrangement of the entries.
\<close>

type_synonym updates_map = "(string \<times> sql_arg) list"

fun map_assign :: "updates_map \<Rightarrow> string \<Rightarrow> sql_arg \<Rightarrow> updates_map" where
  "map_assign [] k v = [(k, v)]"
| "map_assign ((k', v') # m) k v = (if k' = k then (k, v) # m else (k', v') # map_assign m k v)"

subsection \<open>UserRepository\<close>

definition CheckEmailExists :: "sqlx_DB \<Rightarrow> string \<Rightarrow> int \<Rightarrow> error + bool" where
  "CheckEmailExists db email excludeID =
     (case DB_Get db ''SELECT COUNT(*) FROM users WHERE email = $1 AND id != $2''
             [SqlString email, SqlInt excludeID] of
        Inl err \<Rightarrow> Inl err
      | Inr cnt \<Rightarrow> Inr (cnt > 0))"

definition CheckUsernameExists :: "sqlx_DB \<Rightarrow> string \<Rightarrow> int \<Rightarrow> error + bool" where
  "CheckUsernameExists db username excludeID =
     (case DB_Get db ''SELECT COUNT(*) FROM users WHERE username = $1 AND id != $2''
             [SqlString username, SqlInt excludeID] of
        Inl err \<Rightarrow> Inl err
      | Inr cnt \<Rightarrow> Inr (cnt > 0))"

text \<open>
  \<^verbatim>\<open>UserRepository.UpdateUser\<close> up to its call of \<^verbatim>\<open>db.Exec\<close>: the statement text and
  the positional arguments it builds.  The loop state is (setParts, args, argIndex).
\<close>

definition set_loop ::
  "updates_map \<Rightarrow> string list \<times> sql_arg list \<times> int \<Rightarrow> string list \<times> sql_arg list \<times> int" where
  "set_loop visited st =
     foldl (\<lambda>(setParts, args, argIndex) (field, v).
              (setParts @ [field @ '' = $'' @ itoa argIndex], args @ [v], argIndex + 1))
       st visited"

definition UpdateUser_statement ::
  "(updates_map \<Rightarrow> updates_map) \<Rightarrow> instant \<Rightarrow> int \<Rightarrow> updates_map \<Rightarrow> error + string \<times> sql_arg list" where
  "UpdateUser_statement range_order now uid updates =
     (if length updates = 0 then Inl (Errorf ''no fields to update'')
      else
        (case set_loop (range_order updates) ([], [], 1) of
           (setParts, args, argIndex) \<Rightarrow>
             (let setParts = setParts @ [''updated_at = $'' @ itoa argIndex];
                  args = args @ [SqlTime now];
                  argIndex = argIndex + 1;
                  args = args @ [SqlInt uid];
                  query = ''UPDATE users SET '' @ joinStrings setParts '', '' @
                          '' WHERE id = $'' @ itoa argIndex
              in Inr (query, args))))"

definition UserRepository_UpdateUser ::
  "sqlx_DB \<Rightarrow> (updates_map \<Rightarrow> updates_map) \<Rightarrow> instant \<Rightarrow> int \<Rightarrow> updates_map \<Rightarrow> error option" where
  "UserRepository_UpdateUser db range_order now uid updates =
     (case UpdateUser_statement range_order now uid updates of
        Inl err \<Rightarrow> Some err
      | Inr (query, args) \<Rightarrow>
          (case DB_Exec db query args of
             Inl err \<Rightarrow> Some (Wrapf ''failed to update user: '' err)
           | Inr rowsAffected \<Rightarrow>
               if rowsAffected = 0 then Some (Errorf ''user not found'') else None))"

subsection \<open>UserService\<close>

text \<open>
  \<^verbatim>\<open>UserService.UpdateUser\<close>: the map it fills from the request, field by field, with
  its early returns, and then the call of the repository.
\<close>

definition request_updates :: "sqlx_DB \<Rightarrow> int \<Rightarrow> UpdateUserRequest \<Rightarrow> error + updates_map" where
  "request_updates db uid req =
     (case (if Username_upd req \<noteq> []
            then (case CheckUsernameExists db (Username_upd req) uid of
                    Inl err \<Rightarrow> Inl (Wrapf ''failed to check username: '' err)
                  | Inr usernameExists \<Rightarrow>
                      if usernameExists then Inl (Errorf ''username already exists'')
                      else Inr (map_assign [] ''username'' (SqlString (Username_upd req))))
            else Inr []) of
        Inl err \<Rightarrow> Inl err
      | Inr updates \<Rightarrow>
          (case (if Email_upd req \<noteq> []
                 then (case CheckEmailExists db (Email_upd req) uid of
                         Inl err \<Rightarrow> Inl (Wrapf ''failed to check email: '' err)
                       | Inr emailExists \<Rightarrow>
                           if emailExists then Inl (Errorf ''email already exists'')
                           else Inr (map_assign updates ''email'' (SqlString (Email_upd req))))
                 else Inr updates) of
             Inl err \<Rightarrow> Inl err
           | Inr updates \<Rightarrow>
               (let updates = (if FullName_upd req \<noteq> []
                               then map_assign updates ''full_name'' (SqlString (FullName_upd req))
                               else updates);
                    updates = (case IsActive_upd req of
                                 Some b \<Rightarrow> map_assign updates ''is_active'' (SqlBool b)
                               | None \<Rightarrow> updates)
                in Inr updates)))"

definition UserService_UpdateUser ::
  "sqlx_DB \<Rightarrow> (updates_map \<Rightarrow> updates_map) \<Rightarrow> instant \<Rightarrow> int \<Rightarrow> UpdateUserRequest \<Rightarrow> error option" where
  "UserService_UpdateUser db range_order now uid req =
     (case request_updates db uid req of
        Inl err \<Rightarrow> Some err
      | Inr updates \<Rightarrow> UserRepository_UpdateUser db range_order now uid updates)"

text \<open>The statement a request leads to, when the service reaches the repository.\<close>

definition request_statement ::
  "sqlx_DB \<Rightarrow> (updates_map \<Rightarrow> updates_map) \<Rightarrow> instant \<Rightarrow> int \<Rightarrow> UpdateUserRequest
     \<Rightarrow> error + string \<times> sql_arg list" where
  "request_statement db range_order now uid req =
     (case request_updates db uid req of
        Inl err \<Rightarrow> Inl err
      | Inr updates \<Rightarrow> UpdateUser_statement range_order now uid updates)"

text \<open>
  The shape the specification gives a partial update (section 4.4): the columns to
  assign, in order, each with its positional parameter numbered from 1, then the
  timestamp column, then the row selector.  Only column names enter the text.
\<close>

fun assignments_from :: "int \<Rightarrow> string list \<Rightarrow> string list" where
  "assignments_from n [] = []"
| "assignments_from n (c # cs) = (c @ '' = $'' @ itoa n) # assignments_from (n + 1) cs"

definition statement_template :: "string list \<Rightarrow> string" where
  "statement_template cols =
     ''UPDATE users SET '' @ joinStrings (assignments_from 1 (cols @ [''updated_at''])) '', '' @
     '' WHERE id = $'' @ itoa (int (length cols) + 2)"

text \<open>
  \<open>request_fields\<close> pairs each column a request carries, by the name the service
  gives it, with its value.
\<close>

definition request_fields :: "UpdateUserRequest \<Rightarrow> (string \<times> sql_arg) set" where
  "request_fields req =
     (if Username_upd req \<noteq> [] then {(''username'', SqlString (Username_upd req))} else {}) \<union>
     (if Email_upd req \<noteq> [] then {(''email'', SqlString (Email_upd req))} else {}) \<union>
     (if FullName_upd req \<noteq> [] then {(''full_name'', SqlString (FullName_upd req))} else {}) \<union>
     (case IsActive_upd req of Some b \<Rightarrow> {(''is_active'', SqlBool b)} | None \<Rightarrow> {})"

text \<open>
  A database double that knows no other user and updates one row, a request that
  carries a full name only, and a map of updates that holds a \<open>role\<close>.
\<close>

definition role_updates :: updates_map where
  "role_updates = [(''full_name'', SqlString ''Ann''), (''role'', SqlString ''admin'')]"


definition ann_request :: UpdateUserRequest where
  "ann_request = \<lparr>Username_upd = [], Email_upd = [], FullName_upd = ''Ann'', IsActive_upd = None\<rparr>"


definition mock_db :: sqlx_DB where
  "mock_db = \<lparr>DB_Get = (\<lambda>query args. Inr 0), DB_Exec = (\<lambda>query args. Inr 1)\<rparr>"

section \<open>Properties of the token manager\<close>

subsection \<open>Issued tokens parse back\<close>

lemma split_on_no_sep: "d \<notin> set a \<Longrightarrow> split_on d a = [a]"
  by (induction a) auto

lemma split_on_sep: "d \<notin> set a \<Longrightarrow> split_on d (a @ d # rest) = a # split_on d rest"
  by (induction a) auto

lemma split_three:
  "d \<notin> set a \<Longrightarrow> d \<notin> set b \<Longrightarrow> d \<notin> set c \<Longrightarrow> split_on d (a @ d # b @ d # c) = [a, b, c]"
  by (simp add: split_on_sep split_on_no_sep)

lemma parse_signed:
  assumes "lossless_on lib m key claims" and "kf m = Inr key"
  shows "\<exists>tok. SignedString lib m claims key = Inr tok \<and>
     (\<forall>now. ParseWithClaims lib kf now tok =
       (if is_expired now claims then Inl Expired
        else if is_not_yet_valid now claims then Inl NotYetValid
        else Inr \<lparr>Method = m, Claims = claims, Valid = True\<rparr>))"
proof -
  from assms(1) obtain p where p: "encode_claims lib claims = Some p"
    and h: "CHR ''.'' \<notin> set (encode_header lib m)" "CHR ''.'' \<notin> set p"
      "CHR ''.'' \<notin> set (mac lib m key (encode_header lib m @ ''.'' @ p))"
    and d: "decode_header lib (encode_header lib m) = Some m" "decode_claims lib p = Some claims"
    by (auto simp: lossless_on_def Let_def split: option.splits)
  let ?h = "encode_header lib m"
  let ?sg = "mac lib m key (?h @ ''.'' @ p)"
  have tok: "SignedString lib m claims key = Inr (?h @ CHR ''.'' # p @ CHR ''.'' # ?sg)"
    by (simp add: SignedString_def p Let_def)
  have sp: "split_on CHR ''.'' (?h @ CHR ''.'' # p @ CHR ''.'' # ?sg) = [?h, p, ?sg]"
    using h by (rule split_three)
  have "ParseWithClaims lib kf now (?h @ CHR ''.'' # p @ CHR ''.'' # ?sg) =
       (if is_expired now claims then Inl Expired
        else if is_not_yet_valid now claims then Inl NotYetValid
        else Inr \<lparr>Method = m, Claims = claims, Valid = True\<rparr>)" for now
    unfolding ParseWithClaims_def sp by (simp add: d assms(2))
  with tok show ?thesis by blast
qed

lemma GenerateToken_validates:
  assumes "lossless_on lib SigningMethodHS256 (secretKey j)
             (GenerateToken_claims lib j clk userID username email role expiration)"
  shows "\<exists>tok. GenerateToken lib j clk userID username email role expiration = Inr tok \<and>
           (\<forall>now. \<not> is_expired now (GenerateToken_claims lib j clk userID username email role expiration) \<and>
                  \<not> is_not_yet_valid now (GenerateToken_claims lib j clk userID username email role expiration) \<longrightarrow>
                  ValidateToken lib j now tok =
                    Inr (GenerateToken_claims lib j clk userID username email role expiration))"
proof -
  let ?c = "GenerateToken_claims lib j clk userID username email role expiration"
  have k: "keyFunc j SigningMethodHS256 = Inr (secretKey j)"
    by (simp add: keyFunc_def SigningMethodHS256_def)
  from parse_signed[where kf = "keyFunc j", OF assms k] obtain tok where
    tok: "SignedString lib SigningMethodHS256 ?c (secretKey j) = Inr tok"
    and pr: "\<And>now. ParseWithClaims lib (keyFunc j) now tok =
       (if is_expired now ?c then Inl Expired
        else if is_not_yet_valid now ?c then Inl NotYetValid
        else Inr \<lparr>Method = SigningMethodHS256, Claims = ?c, Valid = True\<rparr>)"
    by blast
  have g: "GenerateToken lib j clk userID username email role expiration = Inr tok"
    by (simp add: GenerateToken_def tok)
  have "ValidateToken lib j now tok = Inr ?c"
    if "\<not> is_expired now ?c \<and> \<not> is_not_yet_valid now ?c" for now
    using that by (simp add: ValidateToken_def pr)
  with g show ?thesis by blast
qed

lemma ValidateToken_later:
  assumes "ValidateToken lib j now tokenString = Inr claims"
    and "now \<le> now'" and "\<not> is_expired now' claims"
  shows "ValidateToken lib j now' tokenString = Inr claims"
proof -
  have mono: "\<not> is_not_yet_valid now c \<Longrightarrow> \<not> is_not_yet_valid now' c" for c
    using assms(2) by (auto simp: is_not_yet_valid_def split: option.splits)
  show ?thesis
    using assms(1,3) mono
    by (auto simp: ValidateToken_def ParseWithClaims_def
        split: list.splits option.splits sum.splits if_splits)
qed

subsection \<open>The test double on the sample token\<close>

lemma split_sample_token:
  "split_on CHR ''.'' sample_token =
     [''hmac-HS256'', ''u1,ann,ann@example%com,admin,auth,u1,10,0,0'',
      ''HS256:key:hmac-HS256%u1,ann,ann@example%com,admin,auth,u1,10,0,0'']"
  unfolding sample_token_def by simp

lemma decode_sample_claims:
  "mock_decode_claims ''u1,ann,ann@example%com,admin,auth,u1,10,0,0'' = Some sample_claims"
  by (simp add: mock_decode_claims_def mock_unsegment_def mock_parse_date_def atoi_def
      digit_val_def sample_claims_def)

lemma parse_sample_token:
  "ParseWithClaims mock_lib (keyFunc mock_manager) now sample_token =
     (if now > 10 then Inl Expired
      else if now < 0 then Inl NotYetValid
      else Inr \<lparr>Method = SigningMethodHMAC ''HS256'', Claims = sample_claims, Valid = True\<rparr>)"
proof -
  have h: "decode_header mock_lib ''hmac-HS256'' = Some (SigningMethodHMAC ''HS256'')"
    by (simp add: mock_lib_def mock_decode_header_def mock_unsegment_def)
  have c: "decode_claims mock_lib ''u1,ann,ann@example%com,admin,auth,u1,10,0,0'' = Some sample_claims"
    by (simp add: mock_lib_def decode_sample_claims)
  have k: "keyFunc mock_manager (SigningMethodHMAC ''HS256'') = Inr ''key''"
    by (simp add: keyFunc_def mock_manager_def)
  have m: "mac mock_lib (SigningMethodHMAC ''HS256'') ''key''
             (''hmac-HS256'' @ ''.'' @ ''u1,ann,ann@example%com,admin,auth,u1,10,0,0'') =
           ''HS256:key:hmac-HS256%u1,ann,ann@example%com,admin,auth,u1,10,0,0''"
    by (simp add: mock_lib_def mock_mac_def mock_segment_def)
  have t: "is_expired now sample_claims = (now > 10)" "is_not_yet_valid now sample_claims = (now < 0)"
    by (simp_all add: is_expired_def is_not_yet_valid_def sample_claims_def)
  show ?thesis
    unfolding ParseWithClaims_def split_sample_token
    by (simp only: list.case h c k m t option.case sum.case if_False refl simp_thms)
qed

lemma validate_sample_token:
  "0 \<le> now \<Longrightarrow> now \<le> 10 \<Longrightarrow> ValidateToken mock_lib mock_manager now sample_token = Inr sample_claims"
  by (simp add: ValidateToken_def parse_sample_token)

lemma mock_lossless_refreshed:
  "lossless_on mock_lib SigningMethodHS256 (secretKey mock_manager)
     (GenerateToken_claims mock_lib mock_manager (6, 6, 6) ''u1'' ''ann'' ''ann@example.com'' ''admin'' 20)"
  by (simp add: lossless_on_def mock_lib_def mock_encode_claims_def mock_encode_header_def
      GenerateToken_claims_def SigningMethodHS256_def mock_manager_def mock_date_def itoa_def
      digit_char_def mock_segment_def mock_mac_def mock_decode_header_def mock_unsegment_def
      mock_decode_claims_def mock_parse_date_def atoi_def digit_val_def)

lemma validate_garbage:
  "ValidateToken mock_lib mock_manager now ''garbage'' = Inl (Wrapf ''failed to parse token: '' Malformed)"
  by (simp add: ValidateToken_def ParseWithClaims_def)

subsection \<open>The wire format is lossless\<close>

lemma index_of_nth: "distinct xs \<Longrightarrow> n < length xs \<Longrightarrow> index_of (xs ! n) xs = Some n"
proof (induction xs arbitrary: n)
  case Nil
  then show ?case by simp
next
  case (Cons x xs)
  show ?case
  proof (cases n)
    case 0
    then show ?thesis by simp
  next
    case (Suc m)
    with Cons.prems have "xs ! m \<in> set xs" "x \<notin> set xs" by auto
    then have "x \<noteq> xs ! m" by auto
    with Suc Cons show ?thesis by simp
  qed
qed

lemma alphabet_distinct: "distinct base64url_alphabet"
  by (simp add: base64url_alphabet_def)

lemma alphabet_length: "length base64url_alphabet = 64"
  by (simp add: base64url_alphabet_def)

lemma dec6_enc6: "n < 64 \<Longrightarrow> dec6 (enc6 n) = Some n"
  by (simp add: dec6_def enc6_def index_of_nth alphabet_distinct alphabet_length)

lemma enc6_no_dot: "n < 64 \<Longrightarrow> enc6 n \<noteq> CHR ''.''"
proof -
  assume "n < 64"
  then have "enc6 n \<in> set base64url_alphabet"
    by (simp add: enc6_def alphabet_length)
  moreover have "CHR ''.'' \<notin> set base64url_alphabet"
    by (simp add: base64url_alphabet_def)
  ultimately show ?thesis by auto
qed

lemma byte_bound: "(of_char c :: nat) < 256"
proof -
  have "(of_char c :: nat) mod 256 = of_char c" by (rule of_char_mod_256)
  then show ?thesis by (metis mod_less_divisor zero_less_numeral)
qed

lemma pack_div: "(b::nat) < n \<Longrightarrow> (a * n + b) div n = a"
  by simp

lemma pack_mod: "(b::nat) < n \<Longrightarrow> (a * n + b) mod n = b"
  by simp

lemma hi4: "(y::nat) < 256 \<Longrightarrow> y div 16 < 16"
  by (simp add: less_mult_imp_div_less)

lemma hi2: "(z::nat) < 256 \<Longrightarrow> z div 64 < 4"
  by (simp add: less_mult_imp_div_less)

lemma hi6: "(x::nat) < 256 \<Longrightarrow> x div 4 < 64"
  by (simp add: less_mult_imp_div_less)

lemma sextet2: "(y::nat) < 256 \<Longrightarrow> (x mod 4) * 16 + y div 16 < 64"
proof -
  assume "y < 256"
  then have "y div 16 < 16" by (rule hi4)
  moreover have "x mod 4 < 4" by simp
  ultimately show ?thesis by linarith
qed

lemma sextet3: "(z::nat) < 256 \<Longrightarrow> (y mod 16) * 4 + z div 64 < 64"
proof -
  assume "z < 256"
  then have "z div 64 < 4" by (rule hi2)
  moreover have "y mod 16 < 16" by simp
  ultimately show ?thesis by linarith
qed

lemma sextet3': "((y::nat) mod 16) * 4 < 64"
proof -
  have "y mod 16 < 16" by simp
  then show ?thesis by linarith
qed

lemma sextet2': "((x::nat) mod 4) * 16 < 64"
proof -
  have "x mod 4 < 4" by simp
  then show ?thesis by linarith
qed

lemma byte1: "(y::nat) < 256 \<Longrightarrow> x div 4 * 4 + ((x mod 4) * 16 + y div 16) div 16 = x"
  by (simp only: pack_div[OF hi4] div_mult_mod_eq)

lemma byte2:
  "(y::nat) < 256 \<Longrightarrow> (z::nat) < 256 \<Longrightarrow>
   (((x mod 4) * 16 + y div 16) mod 16) * 16 + ((y mod 16) * 4 + z div 64) div 4 = y"
  by (simp only: pack_mod[OF hi4] pack_div[OF hi2] div_mult_mod_eq)

lemma byte3: "(z::nat) < 256 \<Longrightarrow> (((y mod 16) * 4 + z div 64) mod 4) * 64 + z mod 64 = z"
  by (simp only: pack_mod[OF hi2] div_mult_mod_eq)

lemma byte1': "x div 4 * 4 + ((x mod 4) * 16) div 16 = (x::nat)"
  by simp

lemma byte2': "(y::nat) < 256 \<Longrightarrow> (((x mod 4) * 16 + y div 16) mod 16) * 16 + ((y mod 16) * 4) div 4 = y"
  by (simp add: pack_mod[OF hi4])

lemma decode_quad:
  assumes "p < 64" "q < 64" "r < 64" "s < 64" "DecodeSegment rest = Some cs"
  shows "DecodeSegment (enc6 p # enc6 q # enc6 r # enc6 s # rest) =
           Some (char_of (p * 4 + q div 16) # char_of ((q mod 16) * 16 + r div 4) #
                 char_of ((r mod 4) * 64 + s) # cs)"
  using assms by (simp add: dec6_enc6)

lemma decode_triple:
  assumes "p < 64" "q < 64" "r < 64"
  shows "DecodeSegment [enc6 p, enc6 q, enc6 r] =
           Some [char_of (p * 4 + q div 16), char_of ((q mod 16) * 16 + r div 4)]"
  using assms by (simp add: dec6_enc6)

lemma decode_pair:
  assumes "p < 64" "q < 64"
  shows "DecodeSegment [enc6 p, enc6 q] = Some [char_of (p * 4 + q div 16)]"
  using assms by (simp add: dec6_enc6)

lemma Decode_Encode: "DecodeSegment (EncodeSegment s) = Some s"
proof (induction s rule: EncodeSegment.induct)
  case (1 a b c rest)
  define x y z where "x = (of_char a :: nat)" and "y = (of_char b :: nat)" and "z = (of_char c :: nat)"
  have bx: "x < 256" and "y < 256" and "z < 256"
    by (simp_all add: x_def y_def z_def byte_bound)
  note b = this
  have ih: "DecodeSegment (EncodeSegment rest) = Some rest"
    by (rule 1[OF refl refl refl])
  have e: "EncodeSegment (a # b # c # rest) =
      enc6 (x div 4) # enc6 ((x mod 4) * 16 + y div 16) #
      enc6 ((y mod 16) * 4 + z div 64) # enc6 (z mod 64) # EncodeSegment rest"
    by (simp add: Let_def x_def y_def z_def)
  have "DecodeSegment (EncodeSegment (a # b # c # rest)) =
      Some (char_of x # char_of y # char_of z # rest)"
    unfolding e
    by (simp only: decode_quad[OF hi6[OF b(1)] sextet2[OF b(2)] sextet3[OF b(3)] _ ih]
        byte1[OF b(2)] byte2[OF b(2) b(3)] byte3[OF b(3)] mod_less_divisor zero_less_numeral)
  then show ?case
    by (simp add: x_def y_def z_def)
next
  case (2 a b)
  define x y where "x = (of_char a :: nat)" and "y = (of_char b :: nat)"
  have b: "x < 256" "y < 256"
    by (simp_all add: x_def y_def byte_bound)
  have e: "EncodeSegment [a, b] =
      [enc6 (x div 4), enc6 ((x mod 4) * 16 + y div 16), enc6 ((y mod 16) * 4)]"
    by (simp add: Let_def x_def y_def)
  have "DecodeSegment (EncodeSegment [a, b]) = Some [char_of x, char_of y]"
    unfolding e
    by (simp only: decode_triple[OF hi6[OF b(1)] sextet2[OF b(2)] sextet3'] byte1[OF b(2)] byte2'[OF b(2)])
  then show ?case
    by (simp add: x_def y_def)
next
  case (3 a)
  define x where "x = (of_char a :: nat)"
  have b: "x < 256"
    by (simp add: x_def byte_bound)
  have e: "EncodeSegment [a] = [enc6 (x div 4), enc6 ((x mod 4) * 16)]"
    by (simp add: Let_def x_def)
  have "DecodeSegment (EncodeSegment [a]) = Some [char_of x]"
    unfolding e
    by (simp only: decode_pair[OF hi6[OF b] sextet2'] byte1')
  then show ?case
    by (simp add: x_def)
next
  case 4
  show ?case by simp
qed

lemma Encode_no_dot: "CHR ''.'' \<notin> set (EncodeSegment s)"
proof (induction s rule: EncodeSegment.induct)
  case (1 a b c rest)
  have b: "(of_char a :: nat) < 256" "(of_char b :: nat) < 256" "(of_char c :: nat) < 256"
    by (simp_all add: byte_bound)
  have "CHR ''.'' \<notin> set (EncodeSegment rest)"
    by (rule 1[OF refl refl refl])
  then show ?case
    using enc6_no_dot[OF hi6[OF b(1)]] enc6_no_dot[OF sextet2[OF b(2), of "of_char a"]]
      enc6_no_dot[OF sextet3[OF b(3), of "of_char b"]] enc6_no_dot[of "of_char c mod 64"]
    by (simp add: Let_def)
next
  case (2 a b)
  have b: "(of_char a :: nat) < 256" "(of_char b :: nat) < 256"
    by (simp_all add: byte_bound)
  show ?case
    using enc6_no_dot[OF hi6[OF b(1)]] enc6_no_dot[OF sextet2[OF b(2), of "of_char a"]]
      enc6_no_dot[OF sextet3'[of "of_char b"]]
    by (simp add: Let_def)
next
  case (3 a)
  have b: "(of_char a :: nat) < 256"
    by (simp add: byte_bound)
  show ?case
    using enc6_no_dot[OF hi6[OF b]] enc6_no_dot[OF sextet2'[of "of_char a"]]
    by (simp add: Let_def)
next
  case 4
  show ?case by simp
qed

lemma read_string_body_escape: "read_string_body (json_escape s @ dquote # r) = Some (s, r)"
  by (induction s) (auto simp: dquote_def backslash_def)

lemma read_string_json: "read_string (json_string s @ r) = Some (s, r)"
  by (simp add: read_string_def json_string_def read_string_body_escape)

lemma digit_val_digit_char: "k < 10 \<Longrightarrow> digit_val (digit_char k) = Some k"
proof -
  assume "k < 10"
  then have "k \<in> {0, 1, 2, 3, 4, 5, 6, 7, 8, 9}" by auto
  then show ?thesis
    by (auto simp: digit_val_def digit_char_def)
qed

lemma parse_digits_append:
  "parse_digits (xs @ ys) acc =
     (case parse_digits xs acc of None \<Rightarrow> None | Some a \<Rightarrow> parse_digits ys a)"
  by (induction xs arbitrary: acc) (auto split: option.splits)

lemma parse_digits_digits: "parse_digits (digits n) 0 = Some n"
proof (induction n rule: digits.induct)
  case (1 n)
  show ?case
  proof (cases "n < 10")
    case True
    then show ?thesis
      by (subst digits.simps) (simp add: digit_val_digit_char)
  next
    case False
    have m: "n mod 10 < 10" by simp
    have ih: "parse_digits (digits (n div 10)) 0 = Some (n div 10)"
      by (rule 1[OF False])
    have "digits n = digits (n div 10) @ [digit_char (n mod 10)]"
      using False by (subst digits.simps) simp
    then show ?thesis
      by (simp add: parse_digits_append ih digit_val_digit_char[OF m] del: digits.simps)
  qed
qed

lemma digits_all_digits: "c \<in> set (digits n) \<Longrightarrow> is_digit c"
proof (induction n rule: digits.induct)
  case (1 n)
  show ?case
  proof (cases "n < 10")
    case True
    with 1(2) have "c = digit_char n"
      by (subst (asm) digits.simps) simp
    then show ?thesis
      using True by (simp add: is_digit_def digit_val_digit_char del: digits.simps)
  next
    case False
    have m: "n mod 10 < 10" by simp
    have "digits n = digits (n div 10) @ [digit_char (n mod 10)]"
      using False by (subst digits.simps) simp
    with 1(2) have "c \<in> set (digits (n div 10) @ [digit_char (n mod 10)])"
      by (simp only:)
    then have "c \<in> set (digits (n div 10)) \<or> c = digit_char (n mod 10)"
      by (auto simp del: digits.simps)
    then show ?thesis
      using 1(1)[OF False] by (auto simp: is_digit_def digit_val_digit_char[OF m] simp del: digits.simps)
  qed
qed

lemma digits_nonempty: "digits n \<noteq> []"
  by (subst digits.simps) simp

lemma read_number_digits:
  assumes "\<not> is_digit c"
  shows "read_number (digits n @ c # r) = Some (n, c # r)"
proof -
  have t: "takeWhile is_digit (digits n @ c # r) = digits n"
    using assms digits_all_digits by (simp del: digits.simps)
  have d: "dropWhile is_digit (digits n @ c # r) = c # r"
    using assms digits_all_digits by (simp del: digits.simps)
  show ?thesis
    by (simp add: read_number_def t d digits_nonempty parse_digits_digits del: digits.simps)
qed

lemma read_date_json:
  assumes "\<not> is_digit c"
  shows "read_date (json_date d @ c # r) = Some (d, c # r)"
proof (cases d)
  case None
  then show ?thesis
    by (simp add: json_date_def read_date_def)
next
  case (Some t)
  show ?thesis
  proof (cases "t < 0")
    case True
    have "read_date (CHR ''-'' # digits (nat (- t)) @ c # r) = Some (Some t, c # r)"
      using True by (simp add: read_date_def read_number_digits[OF assms] del: digits.simps)
    then show ?thesis
      using True Some by (simp add: json_date_def itoa_def del: digits.simps)
  next
    case False
    obtain x xs where x: "digits (nat t) = x # xs"
      using digits_nonempty[of "nat t"] by (cases "digits (nat t)") (simp_all del: digits.simps)
    then have dx: "is_digit x"
      using digits_all_digits[of x "nat t"] by (simp del: digits.simps)
    have nx: "x \<noteq> CHR ''n''" "x \<noteq> CHR ''-''"
      using dx by (auto simp: is_digit_def digit_val_def)
    have "read_number (digits (nat t) @ c # r) = Some (nat t, c # r)"
      by (rule read_number_digits[OF assms])
    then have "read_date (digits (nat t) @ c # r) = Some (Some t, c # r)"
      using False nx by (simp add: read_date_def x del: digits.simps)
    then show ?thesis
      using False Some by (simp add: json_date_def itoa_def del: digits.simps)
  qed
qed

lemma not_digit_punct: "\<not> is_digit CHR '',''" "\<not> is_digit CHR ''}''"
  by (simp_all add: is_digit_def digit_val_def)

lemma unmarshal_marshal_claims: "unmarshal_claims (marshal_claims c) = Some c"
  by (simp add: unmarshal_claims_def marshal_claims_def json_key_def dquote_def
      read_string_json read_date_json not_digit_punct)

lemma unmarshal_marshal_header:
  "unmarshal_header (marshal_header SigningMethodHS256) = Some SigningMethodHS256"
  by (simp add: unmarshal_header_def marshal_header_def json_key_def dquote_def
      read_string_json SigningMethodHS256_def GetSigningMethod_def)

lemma jwt_v4_lossless: "lossless_on (jwt_v4 hmac) SigningMethodHS256 key claims"
  by (simp add: lossless_on_def jwt_v4_def Let_def Encode_no_dot Decode_Encode
      unmarshal_marshal_claims unmarshal_marshal_header)

subsection \<open>Round trip\<close>

text \<open>
  C1.  For every claim set (user id, username, email, role), every manager and every
  lifetime such that the resulting expires-at is after the current time \<open>now\<close>:
  issuing at \<open>now\<close> succeeds, and validating the issued token at \<open>now\<close> succeeds
  and returns the claims that were issued, with user id, username, email and role as
  given, the manager's issuer, and the user id as subject.  The token validates to the
  same claims at every later instant up to its expires-at.
\<close>

theorem issue_validate_roundtrip:
  assumes "now < NewNumericDate (jwt_v4 hmac) (now + expiration)"
  shows "\<exists>tok claims.
           GenerateToken (jwt_v4 hmac) j (now, now, now) userID username email role expiration = Inr tok \<and>
           ValidateToken (jwt_v4 hmac) j now tok = Inr claims \<and>
           claims = GenerateToken_claims (jwt_v4 hmac) j (now, now, now) userID username email role expiration \<and>
           UserID claims = userID \<and> Username claims = username \<and> Email claims = email \<and>
           Role claims = role \<and> Issuer claims = issuer j \<and> Subject claims = userID \<and>
           (\<forall>later. now \<le> later \<and> later \<le> now + expiration \<longrightarrow>
              ValidateToken (jwt_v4 hmac) j later tok = Inr claims)"
proof -
  let ?lib = "jwt_v4 hmac"
  let ?c = "GenerateToken_claims ?lib j (now, now, now) userID username email role expiration"
  have d: "ExpiresAt ?c = Some (now + expiration)" "NotBefore ?c = Some now"
    by (simp_all add: GenerateToken_claims_def jwt_v4_def)
  have pos: "now < now + expiration"
    using assms by (simp add: jwt_v4_def)
  have t: "\<not> is_expired later ?c \<and> \<not> is_not_yet_valid later ?c"
    if "now \<le> later \<and> later \<le> now + expiration" for later
    using that by (simp add: is_expired_def is_not_yet_valid_def d)
  from GenerateToken_validates[OF jwt_v4_lossless[of hmac "secretKey j" ?c]] obtain tok where
    g: "GenerateToken ?lib j (now, now, now) userID username email role expiration = Inr tok"
    and v: "\<And>later. \<not> is_expired later ?c \<and> \<not> is_not_yet_valid later ?c \<Longrightarrow>
              ValidateToken ?lib j later tok = Inr ?c"
    by blast
  have v0: "ValidateToken ?lib j now tok = Inr ?c"
    using v[of now] t[of now] pos by simp
  have vl: "\<forall>later. now \<le> later \<and> later \<le> now + expiration \<longrightarrow>
              ValidateToken ?lib j later tok = Inr ?c"
    using v t by blast
  have f: "UserID ?c = userID \<and> Username ?c = username \<and> Email ?c = email \<and>
           Role ?c = role \<and> Issuer ?c = issuer j \<and> Subject ?c = userID"
    by (simp add: GenerateToken_claims_def)
  from g v0 vl f show ?thesis by blast
qed

theorem issue_validate_roundtrip_witness:
  "(0::int) < NewNumericDate (jwt_v4 toy_hmac) (0 + 10) \<and>
   (\<exists>tok claims.
      GenerateToken (jwt_v4 toy_hmac) mock_manager (0, 0, 0) ''u1'' ''a%b,c.d'' ''ann@example.com'' ''admin'' 10 = Inr tok \<and>
      ValidateToken (jwt_v4 toy_hmac) mock_manager 0 tok = Inr claims \<and>
      UserID claims = ''u1'' \<and> Username claims = ''a%b,c.d'' \<and> Email claims = ''ann@example.com'' \<and>
      Role claims = ''admin'' \<and> Issuer claims = ''auth'' \<and> Subject claims = ''u1'')"
proof -
  have h: "(0::int) < NewNumericDate (jwt_v4 toy_hmac) (0 + 10)"
    by (simp add: jwt_v4_def)
  have i: "issuer mock_manager = ''auth''"
    by (simp add: mock_manager_def)
  from issue_validate_roundtrip[OF h, of mock_manager "''u1''" "''a%b,c.d''" "''ann@example.com''" "''admin''"]
  obtain tok claims where
    "GenerateToken (jwt_v4 toy_hmac) mock_manager (0, 0, 0) ''u1'' ''a%b,c.d'' ''ann@example.com'' ''admin'' 10 = Inr tok"
    "ValidateToken (jwt_v4 toy_hmac) mock_manager 0 tok = Inr claims"
    "UserID claims = ''u1''" "Username claims = ''a%b,c.d''" "Email claims = ''ann@example.com''"
    "Role claims = ''admin''" "Issuer claims = issuer mock_manager" "Subject claims = ''u1''"
    by blast
  with h i show ?thesis by auto
qed

subsection \<open>RefreshToken\<close>

text \<open>
  C8, as the code has it.  When the validation of the old token fails with \<open>err\<close>,
  \<^verbatim>\<open>RefreshToken\<close> fails with \<^verbatim>\<open>fmt.Errorf("invalid token for refresh: %w", err)\<close>:
  the validation failure wrapped in a new error, not the failure itself.  When the
  validation succeeds, \<^verbatim>\<open>RefreshToken\<close> returns what issuing returns for the claims
  \<open>fresh\<close>: user id, username, email and role of the validated claims, that user id
  as subject, the manager's issuer, and dates computed from the clock readings of the
  re-issue; where the library is lossless on \<open>fresh\<close> this is a token that validates
  to \<open>fresh\<close>.  The old token string is untouched: it validates to the same claims at
  every later instant up to its own expiry.
\<close>

theorem RefreshToken_wraps_and_reissues:
  "(\<forall>err. ValidateToken lib j now tokenString = Inl err \<longrightarrow>
      RefreshToken lib j now clk tokenString newExpiration =
        Inl (Wrapf ''invalid token for refresh: '' err)) \<and>
   (\<forall>claims. ValidateToken lib j now tokenString = Inr claims \<longrightarrow>
      (let fresh = GenerateToken_claims lib j clk (UserID claims) (Username claims)
                     (Email claims) (Role claims) newExpiration
       in RefreshToken lib j now clk tokenString newExpiration =
            (case SignedString lib SigningMethodHS256 fresh (secretKey j) of
               Inl err \<Rightarrow> Inl (Wrapf ''failed to sign token: '' err)
             | Inr tok \<Rightarrow> Inr tok) \<and>
          UserID fresh = UserID claims \<and> Username fresh = Username claims \<and>
          Email fresh = Email claims \<and> Role fresh = Role claims \<and>
          Subject fresh = UserID claims \<and> Issuer fresh = issuer j \<and>
          ExpiresAt fresh = Some (NewNumericDate lib (fst clk + newExpiration)) \<and>
          IssuedAt fresh = Some (NewNumericDate lib (fst (snd clk))) \<and>
          (lossless_on lib SigningMethodHS256 (secretKey j) fresh \<longrightarrow>
             (\<exists>tok. RefreshToken lib j now clk tokenString newExpiration = Inr tok \<and>
                (\<forall>t. \<not> is_expired t fresh \<and> \<not> is_not_yet_valid t fresh \<longrightarrow>
                   ValidateToken lib j t tok = Inr fresh))) \<and>
          (\<forall>now'. now \<le> now' \<and> \<not> is_expired now' claims \<longrightarrow>
             ValidateToken lib j now' tokenString = Inr claims)))"
proof (intro conjI allI impI)
  fix err assume "ValidateToken lib j now tokenString = Inl err"
  then show "RefreshToken lib j now clk tokenString newExpiration =
        Inl (Wrapf ''invalid token for refresh: '' err)"
    by (simp add: RefreshToken_def)
next
  fix claims assume v: "ValidateToken lib j now tokenString = Inr claims"
  define fresh where "fresh = GenerateToken_claims lib j clk (UserID claims) (Username claims)
                     (Email claims) (Role claims) newExpiration"
  have r: "RefreshToken lib j now clk tokenString newExpiration =
      GenerateToken lib j clk (UserID claims) (Username claims) (Email claims) (Role claims) newExpiration"
    by (simp add: RefreshToken_def v)
  have a: "RefreshToken lib j now clk tokenString newExpiration =
            (case SignedString lib SigningMethodHS256 fresh (secretKey j) of
               Inl err \<Rightarrow> Inl (Wrapf ''failed to sign token: '' err)
             | Inr tok \<Rightarrow> Inr tok)"
    by (simp add: r GenerateToken_def fresh_def)
  have b: "UserID fresh = UserID claims \<and> Username fresh = Username claims \<and>
          Email fresh = Email claims \<and> Role fresh = Role claims \<and>
          Subject fresh = UserID claims \<and> Issuer fresh = issuer j \<and>
          ExpiresAt fresh = Some (NewNumericDate lib (fst clk + newExpiration)) \<and>
          IssuedAt fresh = Some (NewNumericDate lib (fst (snd clk)))"
    by (cases clk) (simp add: fresh_def GenerateToken_claims_def)
  have c: "\<exists>tok. RefreshToken lib j now clk tokenString newExpiration = Inr tok \<and>
                (\<forall>t. \<not> is_expired t fresh \<and> \<not> is_not_yet_valid t fresh \<longrightarrow>
                   ValidateToken lib j t tok = Inr fresh)"
    if "lossless_on lib SigningMethodHS256 (secretKey j) fresh"
    using GenerateToken_validates[OF that[unfolded fresh_def]] by (simp add: r fresh_def)
  have d: "\<forall>now'. now \<le> now' \<and> \<not> is_expired now' claims \<longrightarrow>
             ValidateToken lib j now' tokenString = Inr claims"
    using ValidateToken_later[OF v] by blast
  show "let fresh = GenerateToken_claims lib j clk (UserID claims) (Username claims)
                     (Email claims) (Role claims) newExpiration
       in RefreshToken lib j now clk tokenString newExpiration =
            (case SignedString lib SigningMethodHS256 fresh (secretKey j) of
               Inl err \<Rightarrow> Inl (Wrapf ''failed to sign token: '' err)
             | Inr tok \<Rightarrow> Inr tok) \<and>
          UserID fresh = UserID claims \<and> Username fresh = Username claims \<and>
          Email fresh = Email claims \<and> Role fresh = Role claims \<and>
          Subject fresh = UserID claims \<and> Issuer fresh = issuer j \<and>
          ExpiresAt fresh = Some (NewNumericDate lib (fst clk + newExpiration)) \<and>
          IssuedAt fresh = Some (NewNumericDate lib (fst (snd clk))) \<and>
          (lossless_on lib SigningMethodHS256 (secretKey j) fresh \<longrightarrow>
             (\<exists>tok. RefreshToken lib j now clk tokenString newExpiration = Inr tok \<and>
                (\<forall>t. \<not> is_expired t fresh \<and> \<not> is_not_yet_valid t fresh \<longrightarrow>
                   ValidateToken lib j t tok = Inr fresh))) \<and>
          (\<forall>now'. now \<le> now' \<and> \<not> is_expired now' claims \<longrightarrow>
             ValidateToken lib j now' tokenString = Inr claims)"
    unfolding Let_def fresh_def[symmetric] using a b c d by blast
qed


theorem RefreshToken_wraps_and_reissues_witness:
  "ValidateToken mock_lib mock_manager 5 sample_token = Inr sample_claims \<and>
   lossless_on mock_lib SigningMethodHS256 (secretKey mock_manager)
     (GenerateToken_claims mock_lib mock_manager (6, 6, 6) ''u1'' ''ann'' ''ann@example.com'' ''admin'' 20) \<and>
   (\<exists>tok. RefreshToken mock_lib mock_manager 5 (6, 6, 6) sample_token 20 = Inr tok \<and>
      ValidateToken mock_lib mock_manager 7 tok =
        Inr (GenerateToken_claims mock_lib mock_manager (6, 6, 6) ''u1'' ''ann'' ''ann@example.com'' ''admin'' 20)) \<and>
   ValidateToken mock_lib mock_manager 10 sample_token = Inr sample_claims \<and>
   ValidateToken mock_lib mock_manager 5 ''garbage'' = Inl (Wrapf ''failed to parse token: '' Malformed) \<and>
   RefreshToken mock_lib mock_manager 5 (6, 6, 6) ''garbage'' 20 =
     Inl (Wrapf ''invalid token for refresh: '' (Wrapf ''failed to parse token: '' Malformed))"
proof -
  let ?fresh = "GenerateToken_claims mock_lib mock_manager (6, 6, 6) ''u1'' ''ann'' ''ann@example.com'' ''admin'' 20"
  have v: "ValidateToken mock_lib mock_manager 5 sample_token = Inr sample_claims"
    by (simp add: validate_sample_token)
  have f: "GenerateToken_claims mock_lib mock_manager (6, 6, 6) (UserID sample_claims)
             (Username sample_claims) (Email sample_claims) (Role sample_claims) 20 = ?fresh"
    by (simp add: sample_claims_def)
  have l: "lossless_on mock_lib SigningMethodHS256 (secretKey mock_manager) ?fresh"
    by (rule mock_lossless_refreshed)
  have t: "\<not> is_expired 7 ?fresh \<and> \<not> is_not_yet_valid 7 ?fresh" "\<not> is_expired 10 sample_claims"
    by (simp_all add: is_expired_def is_not_yet_valid_def GenerateToken_claims_def mock_lib_def
        sample_claims_def)
  have g: "ValidateToken mock_lib mock_manager 5 ''garbage'' = Inl (Wrapf ''failed to parse token: '' Malformed)"
    by (rule validate_garbage)
  note ok = RefreshToken_wraps_and_reissues[of mock_lib mock_manager 5 sample_token "(6, 6, 6)" 20,
      THEN conjunct2, THEN spec, of sample_claims, THEN mp, OF v, unfolded Let_def f]
  note bad = RefreshToken_wraps_and_reissues[of mock_lib mock_manager 5 "''garbage''" "(6, 6, 6)" 20,
      THEN conjunct1, THEN spec, THEN mp, OF g]
  have new: "\<exists>tok. RefreshToken mock_lib mock_manager 5 (6, 6, 6) sample_token 20 = Inr tok \<and>
      ValidateToken mock_lib mock_manager 7 tok = Inr ?fresh"
    using ok l t(1) by blast
  have five: "(5::int) \<le> 10"
    by simp
  have old: "ValidateToken mock_lib mock_manager 10 sample_token = Inr sample_claims"
    using ok five t(2) by blast
  have wrapped: "RefreshToken mock_lib mock_manager 5 (6, 6, 6) ''garbage'' 20 =
     Inl (Wrapf ''invalid token for refresh: '' (Wrapf ''failed to parse token: '' Malformed))"
    by (rule bad)
  from v l new old g wrapped show ?thesis by blast
qed

text \<open>
  C8 as stated fails: on a token that is not three segments the validation fails with
  the parse failure, and \<^verbatim>\<open>RefreshToken\<close> returns a different error value, the wrapper
  around it.
\<close>

theorem RefreshToken_failure_counterexample:
  "ValidateToken mock_lib mock_manager 5 ''garbage'' = Inl (Wrapf ''failed to parse token: '' Malformed) \<and>
   RefreshToken mock_lib mock_manager 5 (6, 6, 6) ''garbage'' 20 =
     Inl (Wrapf ''invalid token for refresh: '' (Wrapf ''failed to parse token: '' Malformed)) \<and>
   RefreshToken mock_lib mock_manager 5 (6, 6, 6) ''garbage'' 20 \<noteq>
     Inl (Wrapf ''failed to parse token: '' Malformed)"
  by (simp add: RefreshToken_def validate_garbage)

subsection \<open>IsTokenExpired\<close>

text \<open>
  C9, as the code has it.  \<^verbatim>\<open>IsTokenExpired\<close> returns true exactly when the validation
  fails (with any failure) or succeeds with an expires-at strictly before the time read
  after the validation (\<^verbatim>\<open>ExpiresAt.Time.Before(time.Now())\<close>); it returns false exactly
  when the validation succeeds with an expires-at at or after that time, so a validated
  token whose expires-at equals the current instant is reported as not expired; it
  panics exactly on validated claims that carry no expires-at.
\<close>

theorem IsTokenExpired_strictly_before:
  "(IsTokenExpired lib j tv now tokenString = Some True \<longleftrightarrow>
      isl (ValidateToken lib j tv tokenString) \<or>
      (\<exists>claims e. ValidateToken lib j tv tokenString = Inr claims \<and>
                  ExpiresAt claims = Some e \<and> e < now)) \<and>
   (IsTokenExpired lib j tv now tokenString = Some False \<longleftrightarrow>
      (\<exists>claims e. ValidateToken lib j tv tokenString = Inr claims \<and>
                  ExpiresAt claims = Some e \<and> now \<le> e)) \<and>
   (IsTokenExpired lib j tv now tokenString = None \<longleftrightarrow>
      (\<exists>claims. ValidateToken lib j tv tokenString = Inr claims \<and> ExpiresAt claims = None))"
  by (auto simp: IsTokenExpired_def split: sum.splits option.splits)

lemma GetTokenRemainingTime_at_expiry:
  "ValidateToken lib j tv tokenString = Inr claims \<Longrightarrow> ExpiresAt claims = Some now \<Longrightarrow>
   GetTokenRemainingTime lib j tv now tokenString = Some (Inr 0)"
  by (simp add: GetTokenRemainingTime_def)

text \<open>
  C9 as stated fails: the sample token validates at instant 5 with expires-at 10, and at
  instant 10 (expires-at \<open>\<le>\<close> the current time) \<^verbatim>\<open>IsTokenExpired\<close> answers false.
\<close>

theorem IsTokenExpired_at_expiry_counterexample:
  "ValidateToken mock_lib mock_manager 5 sample_token = Inr sample_claims \<and>
   ExpiresAt sample_claims = Some 10 \<and>
   IsTokenExpired mock_lib mock_manager 5 10 sample_token = Some False"
  by (simp add: IsTokenExpired_def validate_sample_token) (simp add: sample_claims_def)

section \<open>Properties of the rate limiter\<close>

lemma Allow_full:
  assumes "lastRefill rl \<le> now" "availableTokens rl = capacity rl" "0 \<le> refillRate rl" "1 \<le> capacity rl"
  shows "Allow rl now = (True, rl\<lparr>availableTokens := capacity rl - 1, lastRefill := now\<rparr>)"
proof -
  have "0 \<le> seconds (now - lastRefill rl) * refillRate rl"
    using assms(1,3) by (simp add: seconds_def)
  then have "min (capacity rl) (availableTokens rl + seconds (now - lastRefill rl) * refillRate rl) = capacity rl"
    using assms(2) by simp
  then show ?thesis
    using assms(4) by (simp add: Allow_def Let_def)
qed

lemma Allow_same_instant:
  "lastRefill rl = now \<Longrightarrow> availableTokens rl \<le> capacity rl \<Longrightarrow>
   Allow rl now = (if 1 \<le> availableTokens rl then (True, rl\<lparr>availableTokens := availableTokens rl - 1, lastRefill := now\<rparr>)
                   else (False, rl\<lparr>availableTokens := availableTokens rl, lastRefill := now\<rparr>))"
  by (simp add: Allow_def Let_def seconds_def)

lemma serve_allows:
  "map (\<lambda>res. res = Next) (serve requestsPerSecond limiter ts) = allows limiter ts"
  by (induction ts arbitrary: limiter) (auto simp: RateLimiter_handler_def split: prod.splits)

text \<open>
  C5.  A limiter of capacity 2 and rate 2 tokens per second, full when the first request
  arrives at instant \<open>t\<close>: two calls of \<^verbatim>\<open>Allow\<close> at \<open>t\<close> return true, a third at
  \<open>t\<close> returns false, and 500 milliseconds later one call returns true and a second
  one at that instant returns false.  The middleware passes on exactly the requests
  the limiter allows and aborts the others with status 429.
\<close>

theorem token_bucket_two_per_second:
  assumes "created \<le> t"
  shows "allows (RateLimiter 2 2 created) [t, t, t, t + 500000000, t + 500000000] =
           [True, True, False, True, False] \<and>
         map (\<lambda>res. res = Next)
           (serve 2 (RateLimiter 2 2 created) [t, t, t, t + 500000000, t + 500000000]) =
           [True, True, False, True, False]"
proof -
  let ?l0 = "RateLimiter 2 2 created"
  let ?l1 = "?l0\<lparr>availableTokens := 1, lastRefill := t\<rparr>"
  let ?l2 = "?l0\<lparr>availableTokens := 0, lastRefill := t\<rparr>"
  let ?l4 = "?l0\<lparr>availableTokens := 0, lastRefill := t + 500000000\<rparr>"
  have a1: "Allow ?l0 t = (True, ?l1)"
    using assms by (simp add: Allow_full RateLimiter_def NewLimiter_def)
  have a2: "Allow ?l1 t = (True, ?l2)"
    by (simp add: Allow_same_instant RateLimiter_def NewLimiter_def)
  have a3: "Allow ?l2 t = (False, ?l2)"
    by (simp add: Allow_same_instant RateLimiter_def NewLimiter_def)
  have a4: "Allow ?l2 (t + 500000000) = (True, ?l4)"
    by (simp add: Allow_def Let_def seconds_def RateLimiter_def NewLimiter_def)
  have a5: "Allow ?l4 (t + 500000000) = (False, ?l4)"
    by (simp add: Allow_same_instant RateLimiter_def NewLimiter_def)
  have "allows ?l0 [t, t, t, t + 500000000, t + 500000000] = [True, True, False, True, False]"
    by (simp add: a1 a2 a3 a4 a5)
  then show ?thesis
    by (simp only: serve_allows simp_thms)
qed

theorem token_bucket_two_per_second_witness:
  "(0::int) \<le> 0 \<and>
   allows (RateLimiter 2 2 0) [0, 0, 0, 0 + 500000000, 0 + 500000000] =
     [True, True, False, True, False] \<and>
   map (\<lambda>res. res = Next) (serve 2 (RateLimiter 2 2 0) [0, 0, 0, 0 + 500000000, 0 + 500000000]) =
     [True, True, False, True, False]"
  using token_bucket_two_per_second[of 0 0] by simp

section \<open>Properties of the Redis client\<close>

subsection \<open>Lookups\<close>

lemma apply_GET_entries: "snd (apply_commands s (take k [GET key])) = s"
  by (cases k) (auto split: option.splits)

lemma Client_Get_entries: "entries (snd (Client_Get rdb key)) = entries rdb"
proof (cases "next_fault rdb")
  case None
  then show ?thesis
    by (auto simp: Client_Get_def round_trip_def split: option.splits list.splits reply.splits)
next
  case (Some k)
  then show ?thesis
    using apply_GET_entries[of "entries rdb" k key]
    by (auto simp: Client_Get_def round_trip_def split: prod.splits)
qed

lemma Client_Get_absent:
  "entries rdb key = None \<Longrightarrow>
   fst (Client_Get rdb key) = (if next_fault rdb = None then Inl RedisNil else Inl BackendUnavailable)"
  by (auto simp: Client_Get_def round_trip_def split: option.splits prod.splits)


lemma Get_entries: "entries (snd (Get rdb key)) = entries rdb"
  using Client_Get_entries[of rdb key]
  by (auto simp: Get_def split: prod.splits sum.splits)

text \<open>
  C3, as the code has it.  For a key that is absent from the store, \<^verbatim>\<open>Get\<close> returns
  an error: \<^verbatim>\<open>fmt.Errorf("key not found: %s", key)\<close> when the round trip is served,
  and the wrapped transport failure when it is not.  The absent key is reported through
  the error result; it differs from a failed lookup in the error's text only.  The
  store is left as it was.
\<close>

theorem Get_absent_key_is_an_error:
  assumes "entries rdb key = None"
  shows "fst (Get rdb key) =
           (if next_fault rdb = None then Inl (Errorf (''key not found: '' @ key))
            else Inl (Wrapf ''failed to get value: '' BackendUnavailable)) \<and>
         isl (fst (Get rdb key)) \<and> entries (snd (Get rdb key)) = entries rdb"
  using Client_Get_absent[OF assms] Get_entries[of rdb key]
  by (auto simp: Get_def split: prod.splits sum.splits)

theorem Get_absent_key_is_an_error_witness:
  "entries empty_backend ''k'' = None \<and>
   fst (Get empty_backend ''k'') = Inl (Errorf ''key not found: k'') \<and>
   isl (fst (Get empty_backend ''k''))"
proof -
  have a: "entries empty_backend ''k'' = None"
    by (simp add: empty_backend_def)
  have n: "next_fault empty_backend = None"
    by (simp add: next_fault_def empty_backend_def)
  from Get_absent_key_is_an_error[OF a] a n show ?thesis
    by simp
qed

text \<open>
  C3 as stated fails: on an empty store the lookup of \<open>k\<close> ends in an error value, as a
  lookup over a lost connection does.
\<close>

theorem Get_miss_counterexample:
  "fst (Get \<lparr>entries = Map.empty, faults = []\<rparr> ''k'') = Inl (Errorf ''key not found: k'') \<and>
   fst (Get \<lparr>entries = Map.empty, faults = [Some 0]\<rparr> ''k'') =
     Inl (Wrapf ''failed to get value: '' BackendUnavailable)"
  by (simp add: Get_def Client_Get_def round_trip_def next_fault_def)

subsection \<open>CacheWithCallback\<close>

lemma GetAndUnmarshal_entries: "entries (snd (GetAndUnmarshal js rdb key)) = entries rdb"
  using Get_entries[of rdb key]
  by (auto simp: GetAndUnmarshal_def split: prod.splits sum.splits)

lemma CacheWithCallback_miss:
  assumes "isl (fst (GetAndUnmarshal js rdb key))"
  shows "CacheWithCallback js rdb key expiration callback w =
     (case callback w of
        (Inl err, w') \<Rightarrow> (Inl err, snd (GetAndUnmarshal js rdb key), w')
      | (Inr v, w') \<Rightarrow>
          (Inr v, snd (SetWithExpiration js (snd (GetAndUnmarshal js rdb key)) key v expiration), w'))"
  using assms
  by (auto simp: CacheWithCallback_def split: prod.splits sum.splits)

lemma CacheWithCallback_hit:
  assumes "fst (GetAndUnmarshal js rdb key) = Inr cached"
  shows "CacheWithCallback js rdb key expiration callback w =
     (Inr cached, snd (GetAndUnmarshal js rdb key), w)"
  using assms
  by (auto simp: CacheWithCallback_def split: prod.splits sum.splits)


lemma counted_once:
  "snd (counted callback (w, n)) = (snd (callback w), Suc n) \<and> fst (counted callback (w, n)) = fst (callback w)"
  by (simp add: counted_def split: prod.splits)

lemma CacheWithCallback_miss_result:
  assumes "isl (fst (GetAndUnmarshal js rdb key))"
  shows "fst (CacheWithCallback js rdb key expiration callback w) = fst (callback w)"
    and "snd (snd (CacheWithCallback js rdb key expiration callback w)) = snd (callback w)"
  by (auto simp: CacheWithCallback_miss[OF assms] split: prod.splits sum.splits)

text \<open>
  C6.  When the lookup misses (\<^verbatim>\<open>GetAndUnmarshal\<close> returns an error),
  \<^verbatim>\<open>CacheWithCallback\<close> runs the callback exactly once: a callback that counts its
  runs ends at 1, in the world one run leaves.  If the callback fails, its error is
  returned as it is and the store's entries are those from before the call.  If it
  succeeds with \<open>v\<close>, the call returns \<open>v\<close> whatever \<^verbatim>\<open>SetWithExpiration\<close> returns,
  and the backend is the one that write attempt leaves.
\<close>

theorem CacheWithCallback_on_miss:
  assumes "isl (fst (GetAndUnmarshal js rdb key))"
  shows "snd (snd (CacheWithCallback js rdb key expiration (counted callback) (w, 0))) =
           (snd (callback w), 1) \<and>
         (\<forall>err. fst (callback w) = Inl err \<longrightarrow>
            fst (CacheWithCallback js rdb key expiration callback w) = Inl err \<and>
            entries (fst (snd (CacheWithCallback js rdb key expiration callback w))) = entries rdb) \<and>
         (\<forall>v. fst (callback w) = Inr v \<longrightarrow>
            fst (CacheWithCallback js rdb key expiration callback w) = Inr v \<and>
            fst (snd (CacheWithCallback js rdb key expiration callback w)) =
              snd (SetWithExpiration js (snd (GetAndUnmarshal js rdb key)) key v expiration))"
proof (intro conjI allI impI)
  show "snd (snd (CacheWithCallback js rdb key expiration (counted callback) (w, 0))) =
           (snd (callback w), 1)"
    by (simp add: CacheWithCallback_miss_result(2)[OF assms] counted_once)
next
  fix err assume e: "fst (callback w) = Inl err"
  then show "fst (CacheWithCallback js rdb key expiration callback w) = Inl err"
    by (simp add: CacheWithCallback_miss_result(1)[OF assms])
  show "entries (fst (snd (CacheWithCallback js rdb key expiration callback w))) = entries rdb"
    using e GetAndUnmarshal_entries[of js rdb key]
    by (auto simp: CacheWithCallback_miss[OF assms] split: prod.splits sum.splits)
next
  fix v assume v: "fst (callback w) = Inr v"
  then show "fst (CacheWithCallback js rdb key expiration callback w) = Inr v"
    by (simp add: CacheWithCallback_miss_result(1)[OF assms])
  show "fst (snd (CacheWithCallback js rdb key expiration callback w)) =
              snd (SetWithExpiration js (snd (GetAndUnmarshal js rdb key)) key v expiration)"
    using v by (auto simp: CacheWithCallback_miss[OF assms] split: prod.splits sum.splits)
qed

lemma miss_on_write_failing_backend:
  "GetAndUnmarshal mock_json write_failing_backend ''k'' =
     (Inl (Errorf ''key not found: k''), \<lparr>entries = Map.empty, faults = [Some 0]\<rparr>)"
  by (simp add: GetAndUnmarshal_def Get_def Client_Get_def round_trip_def next_fault_def
      write_failing_backend_def)

lemma write_fails_on_write_failing_backend:
  "SetWithExpiration mock_json \<lparr>entries = Map.empty, faults = [Some 0]\<rparr> ''k'' (GoOther 7) 1 =
     (Some (Wrapf ''failed to set value: '' BackendUnavailable), \<lparr>entries = Map.empty, faults = []\<rparr>)"
  by (simp add: SetWithExpiration_def Client_Set_def round_trip_def next_fault_def mock_json_def
      mock_Marshal_def)

theorem CacheWithCallback_on_miss_witness:
  "isl (fst (GetAndUnmarshal mock_json write_failing_backend ''k'')) \<and>
   snd (snd (CacheWithCallback mock_json write_failing_backend ''k'' 1
               (counted (\<lambda>w. (Inr (GoOther 7), w))) ((), 0))) = ((), 1) \<and>
   fst (SetWithExpiration mock_json (snd (GetAndUnmarshal mock_json write_failing_backend ''k''))
          ''k'' (GoOther 7) 1) = Some (Wrapf ''failed to set value: '' BackendUnavailable) \<and>
   fst (CacheWithCallback mock_json write_failing_backend ''k'' 1 (\<lambda>w. (Inr (GoOther 7), w)) ()) =
     Inr (GoOther 7) \<and>
   fst (CacheWithCallback mock_json write_failing_backend ''k'' 1 (\<lambda>w. (Inl (Errorf ''boom''), w)) ()) =
     Inl (Errorf ''boom'') \<and>
   entries (fst (snd (CacheWithCallback mock_json write_failing_backend ''k'' 1
                        (\<lambda>w. (Inl (Errorf ''boom''), w)) ()))) = entries write_failing_backend"
proof -
  have m: "isl (fst (GetAndUnmarshal mock_json write_failing_backend ''k''))"
    by (simp add: miss_on_write_failing_backend)
  have w: "fst (SetWithExpiration mock_json (snd (GetAndUnmarshal mock_json write_failing_backend ''k''))
          ''k'' (GoOther 7) 1) = Some (Wrapf ''failed to set value: '' BackendUnavailable)"
    by (simp add: miss_on_write_failing_backend write_fails_on_write_failing_backend)
  note ok = CacheWithCallback_on_miss[OF m, of 1 "\<lambda>w. (Inr (GoOther 7), w)" "()"]
  note bad = CacheWithCallback_on_miss[OF m, of 1 "\<lambda>w. (Inl (Errorf ''boom''), w)" "()"]
  from ok bad m w show ?thesis
    by simp
qed









subsection \<open>IncrementCounter\<close>

text \<open>
  C7 at a failing input.  \<^verbatim>\<open>IncrementCounter\<close> sends \<open>INCR\<close> and \<open>EXPIRE\<close> as two
  commands of one pipeline batch.  On a fresh key \<open>c\<close>, over a connection that is lost
  after the server has applied the first command of the batch, the call returns an
  error and leaves \<open>c\<close> with the value 1 and no expiry.  On a healthy connection five
  successive calls on the fresh key return 1, 2, 3, 4, 5.
\<close>

theorem IncrementCounter_is_not_atomic:
  "IncrementCounter \<lparr>entries = Map.empty, faults = [Some 1]\<rparr> ''c'' 10 =
     (Inl (Wrapf ''failed to increment counter: '' BackendUnavailable),
      \<lparr>entries = [''c'' \<mapsto> \<lparr>bytes = ''1'', remainingTTL = None\<rparr>], faults = []\<rparr>) \<and>
   fst (increments empty_backend ''c'' 10 5) = [Inr 1, Inr 2, Inr 3, Inr 4, Inr 5]"
  by (simp add: IncrementCounter_def Pipeline_Exec_def round_trip_def next_fault_def
      eval_nat_numeral atoi_def itoa_def digit_val_def digit_char_def empty_backend_def)

section \<open>Properties of the partial update\<close>

lemma assignments_from_append:
  "assignments_from n (xs @ ys) = assignments_from n xs @ assignments_from (n + int (length xs)) ys"
  by (induction xs arbitrary: n) (auto simp: algebra_simps)

lemma set_loop_result:
  "set_loop kvs (setParts, args, n) =
     (setParts @ assignments_from n (map fst kvs), args @ map snd kvs, n + int (length kvs))"
proof (induction kvs arbitrary: setParts args n)
  case Nil
  then show ?case by (simp add: set_loop_def)
next
  case (Cons kv kvs)
  obtain f v where kv: "kv = (f, v)" by (cases kv)
  have "set_loop (kv # kvs) (setParts, args, n) =
          set_loop kvs (setParts @ [f @ '' = $'' @ itoa n], args @ [v], n + 1)"
    by (simp add: set_loop_def kv)
  then show ?case
    by (simp add: Cons.IH kv algebra_simps)
qed

lemma UpdateUser_statement_shape:
  assumes "UpdateUser_statement range_order now uid updates = Inr (query, args)"
  shows "query = statement_template (map fst (range_order updates)) \<and>
         args = map snd (range_order updates) @ [SqlTime now, SqlInt uid] \<and> updates \<noteq> []"
  using assms
  by (auto simp: UpdateUser_statement_def set_loop_result statement_template_def Let_def
      assignments_from_append algebra_simps split: if_splits)

lemma request_updates_fields:
  assumes "request_updates db uid req = Inr updates"
  shows "distinct (map fst updates) \<and> set updates = request_fields req"
  using assms
  by (auto simp: request_updates_def request_fields_def Let_def
      split: if_splits sum.splits option.splits)


lemma request_fields_columns:
  "fst ` request_fields req \<subseteq> {''username'', ''email'', ''full_name'', ''is_active''}"
  by (auto simp: request_fields_def split: if_splits option.splits)

lemma UserService_UpdateUser_runs_statement:
  assumes "request_statement db range_order now uid req = Inr (query, args)"
  shows "UserService_UpdateUser db range_order now uid req =
           (case DB_Exec db query args of
              Inl err \<Rightarrow> Some (Wrapf ''failed to update user: '' err)
            | Inr rowsAffected \<Rightarrow>
                if rowsAffected = 0 then Some (Errorf ''user not found'') else None)"
  using assms
  by (auto simp: request_statement_def UserService_UpdateUser_def UserRepository_UpdateUser_def
      split: sum.splits)

lemma UpdateUser_statement_nonempty:
  assumes "updates \<noteq> []"
  shows "UpdateUser_statement range_order now uid updates =
           Inr (statement_template (map fst (range_order updates)),
                map snd (range_order updates) @ [SqlTime now, SqlInt uid])"
  using assms
  by (simp add: UpdateUser_statement_def set_loop_result statement_template_def Let_def
      assignments_from_append algebra_simps)

lemma request_statement_columns:
  assumes "\<forall>m. mset (range_order m) = mset m"
      and "request_statement db range_order now uid req = Inr (query, args)"
  shows "\<exists>cols vals.
           query = statement_template cols \<and> args = vals @ [SqlTime now, SqlInt uid] \<and>
           length vals = length cols \<and> cols \<noteq> [] \<and> distinct cols \<and>
           set cols \<subseteq> {''username'', ''email'', ''full_name'', ''is_active''} \<and>
           ''role'' \<notin> set cols \<and> set (zip cols vals) = request_fields req \<and>
           UserService_UpdateUser db range_order now uid req =
             (case DB_Exec db query args of
                Inl err \<Rightarrow> Some (Wrapf ''failed to update user: '' err)
              | Inr rowsAffected \<Rightarrow>
                  if rowsAffected = 0 then Some (Errorf ''user not found'') else None)"
proof -
  from assms(2) obtain updates where u: "request_updates db uid req = Inr updates"
    and st: "UpdateUser_statement range_order now uid updates = Inr (query, args)"
    by (auto simp: request_statement_def split: sum.splits)
  let ?visited = "range_order updates"
  let ?cols = "map fst ?visited"
  let ?vals = "map snd ?visited"
  have ms: "mset ?visited = mset updates"
    using assms(1) by simp
  have fields: "distinct (map fst updates)" "set updates = request_fields req"
    using request_updates_fields[OF u] by simp_all
  have shape: "query = statement_template ?cols" "args = ?vals @ [SqlTime now, SqlInt uid]"
    "updates \<noteq> []"
    using UpdateUser_statement_shape[OF st] by simp_all
  have "mset ?cols = mset (map fst updates)"
    using ms by (metis mset_map)
  then have d: "distinct ?cols"
    using fields(1) by (metis mset_eq_imp_distinct_iff)
  have sv: "set ?visited = set updates"
    using ms by (metis set_mset_mset)
  have ne: "?cols \<noteq> []"
    using sv shape(3) by auto
  have z: "set (zip ?cols ?vals) = request_fields req"
    using sv fields(2) by (simp add: zip_map_fst_snd)
  have sub: "set ?cols \<subseteq> {''username'', ''email'', ''full_name'', ''is_active''}"
    using sv fields(2) request_fields_columns[of req] by auto
  have role: "''role'' \<notin> set ?cols"
    using sub by auto
  have len: "length ?vals = length ?cols"
    by simp
  from shape(1,2) len ne d sub role z UserService_UpdateUser_runs_statement[OF assms(2)]
  show ?thesis by blast
qed

text \<open>
  C2, as the code has it.  The repository's partial-update builder has no allow-list.
  It rejects an empty map of updates with \<open>no fields to update\<close>; for every other
  map it produces the statement template over columns \<open>cols\<close> with positional
  arguments \<open>vals\<close>, where the pairs of a column and its value are exactly the entries
  of the map, in the order the map is ranged over: no key is dropped or rejected.  The
  text holds column names and parameter numbers only; the values are the positional
  arguments, followed by the timestamp and the identifier.  Through
  \<^verbatim>\<open>UserService.UpdateUser\<close> the entries are those of the fields the typed request
  carries, so there the columns are distinct names among \<open>username\<close>, \<open>email\<close>,
  \<open>full_name\<close> and \<open>is_active\<close>, never \<open>role\<close>, and the statement is the one the
  service executes.
\<close>

theorem partial_update_statement:
  assumes "\<forall>m. mset (range_order m) = mset m"
  shows "(updates = [] \<longrightarrow>
            UpdateUser_statement range_order now uid updates = Inl (Errorf ''no fields to update'')) \<and>
         (updates \<noteq> [] \<longrightarrow>
            (\<exists>cols vals.
               UpdateUser_statement range_order now uid updates =
                 Inr (statement_template cols, vals @ [SqlTime now, SqlInt uid]) \<and>
               length vals = length cols \<and> mset (zip cols vals) = mset updates)) \<and>
         (\<forall>query args.
            request_statement db range_order now uid req = Inr (query, args) \<longrightarrow>
            (\<exists>cols vals.
               query = statement_template cols \<and> args = vals @ [SqlTime now, SqlInt uid] \<and>
               length vals = length cols \<and> cols \<noteq> [] \<and> distinct cols \<and>
               set cols \<subseteq> {''username'', ''email'', ''full_name'', ''is_active''} \<and>
               ''role'' \<notin> set cols \<and> set (zip cols vals) = request_fields req \<and>
               UserService_UpdateUser db range_order now uid req =
                 (case DB_Exec db query args of
                    Inl err \<Rightarrow> Some (Wrapf ''failed to update user: '' err)
                  | Inr rowsAffected \<Rightarrow>
                      if rowsAffected = 0 then Some (Errorf ''user not found'') else None)))"
proof (intro conjI allI impI)
  assume "updates = []"
  then show "UpdateUser_statement range_order now uid updates = Inl (Errorf ''no fields to update'')"
    by (simp add: UpdateUser_statement_def)
next
  assume ne: "updates \<noteq> []"
  let ?visited = "range_order updates"
  have "mset (zip (map fst ?visited) (map snd ?visited)) = mset updates"
    using assms by (simp add: zip_map_fst_snd)
  moreover have "length (map snd ?visited) = length (map fst ?visited)"
    by simp
  ultimately show "\<exists>cols vals.
               UpdateUser_statement range_order now uid updates =
                 Inr (statement_template cols, vals @ [SqlTime now, SqlInt uid]) \<and>
               length vals = length cols \<and> mset (zip cols vals) = mset updates"
    using UpdateUser_statement_nonempty[OF ne, of range_order now uid] by blast
next
  fix query args
  assume "request_statement db range_order now uid req = Inr (query, args)"
  from request_statement_columns[OF assms this]
  show "\<exists>cols vals.
               query = statement_template cols \<and> args = vals @ [SqlTime now, SqlInt uid] \<and>
               length vals = length cols \<and> cols \<noteq> [] \<and> distinct cols \<and>
               set cols \<subseteq> {''username'', ''email'', ''full_name'', ''is_active''} \<and>
               ''role'' \<notin> set cols \<and> set (zip cols vals) = request_fields req \<and>
               UserService_UpdateUser db range_order now uid req =
                 (case DB_Exec db query args of
                    Inl err \<Rightarrow> Some (Wrapf ''failed to update user: '' err)
                  | Inr rowsAffected \<Rightarrow>
                      if rowsAffected = 0 then Some (Errorf ''user not found'') else None)" .
qed

lemma ann_statement:
  "request_statement mock_db rev 100 7 ann_request =
     Inr (''UPDATE users SET full_name = $1, updated_at = $2 WHERE id = $3'',
          [SqlString ''Ann'', SqlTime 100, SqlInt 7])"
  by (simp add: request_statement_def request_updates_def ann_request_def UpdateUser_statement_def
      set_loop_def itoa_def digit_char_def Let_def)

lemma role_statement:
  "UpdateUser_statement (\<lambda>m. m) 100 7 role_updates =
     Inr (''UPDATE users SET full_name = $1, role = $2, updated_at = $3 WHERE id = $4'',
          [SqlString ''Ann'', SqlString ''admin'', SqlTime 100, SqlInt 7])"
  by (simp add: role_updates_def UpdateUser_statement_def set_loop_def itoa_def digit_char_def Let_def)

theorem partial_update_statement_witness:
  "(\<forall>m :: updates_map. mset (rev m) = mset m) \<and>
   UpdateUser_statement rev 100 7 [] = Inl (Errorf ''no fields to update'') \<and>
   role_updates \<noteq> [] \<and>
   (\<exists>cols vals.
      UpdateUser_statement rev 100 7 role_updates =
        Inr (statement_template cols, vals @ [SqlTime 100, SqlInt 7]) \<and>
      length vals = length cols \<and> mset (zip cols vals) = mset role_updates) \<and>
   request_statement mock_db rev 100 7 ann_request =
     Inr (''UPDATE users SET full_name = $1, updated_at = $2 WHERE id = $3'',
          [SqlString ''Ann'', SqlTime 100, SqlInt 7]) \<and>
   (\<exists>cols vals.
      ''UPDATE users SET full_name = $1, updated_at = $2 WHERE id = $3'' = statement_template cols \<and>
      [SqlString ''Ann'', SqlTime 100, SqlInt 7] = vals @ [SqlTime 100, SqlInt 7] \<and>
      set cols \<subseteq> {''username'', ''email'', ''full_name'', ''is_active''} \<and> ''role'' \<notin> set cols \<and>
      set (zip cols vals) = {(''full_name'', SqlString ''Ann'')}) \<and>
   UserService_UpdateUser mock_db rev 100 7 ann_request = None"
proof -
  have p: "\<forall>m :: updates_map. mset (rev m) = mset m"
    by simp
  have ne: "role_updates \<noteq> []"
    by (simp add: role_updates_def)
  have f: "request_fields ann_request = {(''full_name'', SqlString ''Ann'')}"
    by (simp add: request_fields_def ann_request_def)
  have e: "DB_Exec mock_db ''UPDATE users SET full_name = $1, updated_at = $2 WHERE id = $3''
             [SqlString ''Ann'', SqlTime 100, SqlInt 7] = Inr 1"
    by (simp add: mock_db_def)
  note empty = partial_update_statement[OF p, of "[]" 100 7 mock_db ann_request,
      THEN conjunct1, THEN mp, OF refl]
  note role = partial_update_statement[OF p, of role_updates 100 7 mock_db ann_request,
      THEN conjunct2, THEN conjunct1, THEN mp, OF ne]
  note ann = partial_update_statement[OF p, of role_updates 100 7 mock_db ann_request,
      THEN conjunct2, THEN conjunct2, THEN spec, THEN spec, THEN mp, OF ann_statement,
      unfolded f e]
  from ann obtain cols vals where
    q: "''UPDATE users SET full_name = $1, updated_at = $2 WHERE id = $3'' = statement_template cols"
    and ar: "[SqlString ''Ann'', SqlTime 100, SqlInt 7] = vals @ [SqlTime 100, SqlInt 7]"
    and sub: "set cols \<subseteq> {''username'', ''email'', ''full_name'', ''is_active''}"
    and nr: "''role'' \<notin> set cols"
    and z: "set (zip cols vals) = {(''full_name'', SqlString ''Ann'')}"
    and run: "UserService_UpdateUser mock_db rev 100 7 ann_request =
                (case (Inr 1 :: error + int) of
                   Inl err \<Rightarrow> Some (Wrapf ''failed to update user: '' err)
                 | Inr rowsAffected \<Rightarrow>
                     if rowsAffected = 0 then Some (Errorf ''user not found'') else None)"
    by (elim exE conjE)
  have a: "\<exists>cols vals.
      ''UPDATE users SET full_name = $1, updated_at = $2 WHERE id = $3'' = statement_template cols \<and>
      [SqlString ''Ann'', SqlTime 100, SqlInt 7] = vals @ [SqlTime 100, SqlInt 7] \<and>
      set cols \<subseteq> {''username'', ''email'', ''full_name'', ''is_active''} \<and> ''role'' \<notin> set cols \<and>
      set (zip cols vals) = {(''full_name'', SqlString ''Ann'')}"
    using q ar sub nr z by (intro exI conjI)
  have b: "UserService_UpdateUser mock_db rev 100 7 ann_request = None"
    by (simp only: run sum.case) simp
  show ?thesis
    using p empty ne role ann_statement a b by (intro conjI)
qed

text \<open>
  C2 as stated fails at the builder: handed the map of the specification's example,
  with a \<open>role\<close> beside the full name, it assigns \<open>role\<close> in the statement.
\<close>

theorem role_not_dropped_counterexample:
  "UpdateUser_statement (\<lambda>m. m) 100 7
     [(''full_name'', SqlString ''Ann''), (''role'', SqlString ''admin'')] =
     Inr (''UPDATE users SET full_name = $1, role = $2, updated_at = $3 WHERE id = $4'',
          [SqlString ''Ann'', SqlString ''admin'', SqlTime 100, SqlInt 7])"
  using role_statement by (simp add: role_updates_def)

end
